theory Spec2Isabelle
  imports Main "HOL-Library.AList"
begin

section \<open>Python values, exceptions and the wire codec\<close>

text \<open>
  The values that travel through \<^verbatim>\<open>lib/zrpc/server.py\<close>: request and response
  documents are Python dictionaries with string keys, kept here as association lists
  (\<open>map_of\<close> is a lookup, \<open>AList.update\<close> is \<^verbatim>\<open>d[k] = v\<close>). Lists and tuples are
  both sequences (\<open>PList\<close>); \<open>PObject\<close> stands for every other Python object, which
  BSON cannot represent.
\<close>

datatype pyval =
    PNone
  | PBool bool
  | PInt int
  | PStr string
  | PList "pyval list"
  | PDict "(string \<times> pyval) list"
  | PObject nat

type_synonym document = "(string \<times> pyval) list"

text \<open>What the wire format can represent: everything but an opaque object, at any depth.\<close>

fun encodable :: "pyval \<Rightarrow> bool" where
  "encodable (PObject n) = False"
| "encodable (PList vs) = list_all encodable vs"
| "encodable (PDict kvs) = list_all (\<lambda>kv. encodable (snd kv)) kvs"
| "encodable v = True"

text \<open>
  The encoder of the \<^verbatim>\<open>bson\<close> package writes an integer in at most eight bytes and
  raises \<^verbatim>\<open>OverflowError\<close>, not \<^verbatim>\<open>InvalidDocument\<close>, for one outside the signed 64-bit
  range. \<open>overflows v\<close>: the value holds such an integer, at any depth.
\<close>

definition int64 :: "int \<Rightarrow> bool" where
  "int64 n = (- (2 ^ 63) \<le> n \<and> n < 2 ^ 63)"

fun overflows :: "pyval \<Rightarrow> bool" where
  "overflows (PInt n) = (\<not> int64 n)"
| "overflows (PList vs) = list_ex overflows vs"
| "overflows (PDict kvs) = list_ex (\<lambda>kv. overflows (snd kv)) kvs"
| "overflows v = False"

text \<open>
  An exception in flight, as \<^verbatim>\<open>sys.exc_info()\<close> shows it. \<open>exc_kind\<close> places its class in
  the hierarchy the \<^verbatim>\<open>except\<close> clauses of the source test: \<open>KeyboardInterrupt\<close>,
  \<open>SystemExit\<close> and \<open>GeneratorExit\<close> derive from \<^verbatim>\<open>BaseException\<close> only, every other
  kind derives from \<^verbatim>\<open>Exception\<close>. \<open>exc_module\<close> and \<open>exc_name\<close> are
  \<^verbatim>\<open>exc_type.__module__\<close> and \<^verbatim>\<open>exc_type.__name__\<close>, \<open>exc_args\<close> is
  \<^verbatim>\<open>exc_value.args\<close>. \<^verbatim>\<open>traceback.format_exception_only\<close> returns a list of
  lines that always ends with the line naming the exception; the record keeps the lines
  before it and that final line.
\<close>

datatype exc_kind =
    KeyboardInterrupt
  | SystemExit
  | GeneratorExit
  | InvalidDocument
  | ZMQError int
  | OtherException

record pyexc =
  exc_kind :: exc_kind
  exc_module :: string
  exc_name :: string
  exc_args :: "pyval list"
  exc_format_init :: "string list"
  exc_format_final :: string

definition format_exception_only :: "pyexc \<Rightarrow> string list" where
  "format_exception_only exc = exc_format_init exc @ [exc_format_final exc]"

fun derives_from_Exception :: "exc_kind \<Rightarrow> bool" where
  "derives_from_Exception KeyboardInterrupt = False"
| "derives_from_Exception SystemExit = False"
| "derives_from_Exception GeneratorExit = False"
| "derives_from_Exception k = True"

definition is_Exception :: "pyexc \<Rightarrow> bool" where
  "is_Exception exc = derives_from_Exception (exc_kind exc)"

text \<open>The exceptions the interpreter itself raises in the code below.\<close>

definition KeyError :: "string \<Rightarrow> pyexc" where
  "KeyError k =
     \<lparr>exc_kind = OtherException, exc_module = ''exceptions'', exc_name = ''KeyError'',
      exc_args = [PStr k], exc_format_init = [],
      exc_format_final = ''KeyError: '' @ [CHR 0x27] @ k @ [CHR 0x27, CHR 0x0A]\<rparr>"

definition TypeError :: "string \<Rightarrow> pyexc" where
  "TypeError msg =
     \<lparr>exc_kind = OtherException, exc_module = ''exceptions'', exc_name = ''TypeError'',
      exc_args = [PStr msg], exc_format_init = [],
      exc_format_final = ''TypeError: '' @ msg @ [CHR 0x0A]\<rparr>"

definition UnboundLocalError :: "string \<Rightarrow> pyexc" where
  "UnboundLocalError msg =
     \<lparr>exc_kind = OtherException, exc_module = ''exceptions'', exc_name = ''UnboundLocalError'',
      exc_args = [PStr msg], exc_format_init = [],
      exc_format_final = ''UnboundLocalError: '' @ msg @ [CHR 0x0A]\<rparr>"

definition OverflowError :: "string \<Rightarrow> pyexc" where
  "OverflowError msg =
     \<lparr>exc_kind = OtherException, exc_module = ''exceptions'', exc_name = ''OverflowError'',
      exc_args = [PStr msg], exc_format_init = [],
      exc_format_final = ''OverflowError: '' @ msg @ [CHR 0x0A]\<rparr>"

text \<open>\<^verbatim>\<open>str.strip()\<close>: leading and trailing whitespace removed.\<close>

definition py_isspace :: "char \<Rightarrow> bool" where
  "py_isspace ch = (ch \<in> set [CHR 0x20, CHR 0x09, CHR 0x0A, CHR 0x0B, CHR 0x0C, CHR 0x0D])"

definition strip :: "string \<Rightarrow> string" where
  "strip s = rev (dropWhile py_isspace (rev (dropWhile py_isspace s)))"

text \<open>
  The BSON library is outside the repository: the codec is a parameter. \<open>encode c d\<close> is
  \<^verbatim>\<open>BSON.encode(d)\<close>, \<open>decode c w\<close> is \<^verbatim>\<open>BSON(w).decode()\<close>; \<open>Inl\<close> is the exception
  the call raises. The type \<open>'w\<close> of wire messages is left open, the server never looks
  inside one.
\<close>

record 'w codec =
  encode :: "document \<Rightarrow> pyexc + 'w"
  decode :: "'w \<Rightarrow> pyexc + document"

text \<open>
  The registry is an opaque callable \<^verbatim>\<open>registry(method, *params)\<close>: it returns a value
  or raises, and may change a state \<open>'r\<close> of its own while doing so.
\<close>

datatype outcome = Return pyval | Raise pyexc

type_synonym 'r registry = "pyval list \<Rightarrow> 'r \<Rightarrow> outcome \<times> 'r"

section \<open>Error capture and the response builder\<close>

text \<open>
  \<^verbatim>\<open>Server.capture_exception\<close>, with the current exception as an argument. The probe
  \<^verbatim>\<open>BSON.encode({'args': exc_value.args})\<close> is guarded by
  \<^verbatim>\<open>except InvalidDocument\<close> only: any other exception of the probe leaves the function.
  The logging call has no effect on the result.
\<close>

definition capture_exception :: "'w codec \<Rightarrow> pyexc \<Rightarrow> pyexc + pyval" where
  "capture_exception c exc =
     (let exc_type_string = exc_module exc @ ''.'' @ exc_name exc;
          exc_message = strip (last (format_exception_only exc));
          error = [(''type'', PStr exc_type_string), (''message'', PStr exc_message)]
      in case encode c [(''args'', PList (exc_args exc))] of
           Inl probe_exc \<Rightarrow>
             if exc_kind probe_exc = InvalidDocument then Inr (PDict error) else Inl probe_exc
         | Inr w \<Rightarrow> Inr (PDict (AList.update ''args'' (PList (exc_args exc)) error)))"

text \<open>
  \<^verbatim>\<open>Server.get_response\<close>, in the three steps of its body. \<open>call_func\<close> is the first
  \<^verbatim>\<open>try\<close>: \<^verbatim>\<open>except Exception\<close> catches the exceptions that derive from
  \<^verbatim>\<open>Exception\<close> and no others. \<open>assemble\<close> builds the response dictionary and adds
  \<^verbatim>\<open>id\<close> when \<^verbatim>\<open>message_id is not None\<close>. The second \<^verbatim>\<open>try\<close> encodes it; on
  \<^verbatim>\<open>InvalidDocument\<close> the \<^verbatim>\<open>error\<close> and \<^verbatim>\<open>result\<close> entries are overwritten in
  place and the dictionary is encoded again, outside any handler.
\<close>

definition call_func ::
  "'w codec \<Rightarrow> 'r registry \<Rightarrow> pyval list \<Rightarrow> 'r \<Rightarrow> (pyexc + pyval \<times> pyval) \<times> 'r" where
  "call_func c func args r =
     (case func args r of
        (Return v, r') \<Rightarrow> (Inr (v, PNone), r')
      | (Raise exc, r') \<Rightarrow>
          if is_Exception exc then
            (case capture_exception c exc of
               Inl x \<Rightarrow> (Inl x, r')
             | Inr error \<Rightarrow> (Inr (PNone, error), r'))
          else (Inl exc, r'))"

definition assemble :: "pyval \<Rightarrow> pyval \<Rightarrow> pyval \<Rightarrow> document" where
  "assemble message_id result error =
     (let response = [(''result'', result), (''error'', error)]
      in if message_id \<noteq> PNone then AList.update ''id'' message_id response else response)"

definition encode_response :: "'w codec \<Rightarrow> document \<Rightarrow> pyexc + 'w" where
  "encode_response c response =
     (case encode c response of
        Inr w \<Rightarrow> Inr w
      | Inl exc \<Rightarrow>
          if exc_kind exc = InvalidDocument then
            (case capture_exception c exc of
               Inl x \<Rightarrow> Inl x
             | Inr error \<Rightarrow>
                 encode c (AList.update ''result'' PNone (AList.update ''error'' error response)))
          else Inl exc)"

definition get_response ::
  "'w codec \<Rightarrow> pyval \<Rightarrow> 'r registry \<Rightarrow> pyval list \<Rightarrow> 'r \<Rightarrow> (pyexc + 'w) \<times> 'r" where
  "get_response c message_id func args r =
     (case call_func c func args r of
        (Inl exc, r') \<Rightarrow> (Inl exc, r')
      | (Inr (result, error), r') \<Rightarrow> (encode_response c (assemble message_id result error), r'))"

section \<open>The message processor\<close>

text \<open>
  \<^verbatim>\<open>*message['params']\<close> unpacks any iterable: a sequence gives its items, a string its
  characters, a dictionary its keys; anything else is a \<^verbatim>\<open>TypeError\<close>.
\<close>

text \<open>\<^verbatim>\<open>d.get(k, dflt)\<close> on a dictionary.\<close>

definition dict_get :: "document \<Rightarrow> string \<Rightarrow> pyval \<Rightarrow> pyval" where
  "dict_get d k dflt = (case map_of d k of None \<Rightarrow> dflt | Some v \<Rightarrow> v)"

fun unpack :: "pyval \<Rightarrow> pyexc + pyval list" where
  "unpack (PList vs) = Inr vs"
| "unpack (PStr s) = Inr (map (\<lambda>ch. PStr [ch]) s)"
| "unpack (PDict kvs) = Inr (map (\<lambda>kv. PStr (fst kv)) kvs)"
| "unpack v = Inl (TypeError ''get_response() argument after * must be a sequence'')"

text \<open>
  \<^verbatim>\<open>Server.process_message\<close>. Both branches of the logging statement evaluate
  \<^verbatim>\<open>message['method']\<close> first, so a missing \<^verbatim>\<open>method\<close> is the first \<^verbatim>\<open>KeyError\<close>;
  the arguments of the call are then evaluated in order: \<^verbatim>\<open>message.get('id', None)\<close>,
  \<^verbatim>\<open>message['method']\<close>, \<^verbatim>\<open>message['params']\<close>.
\<close>

definition process_message ::
  "'w codec \<Rightarrow> 'r registry \<Rightarrow> document \<Rightarrow> 'r \<Rightarrow> (pyexc + 'w) \<times> 'r" where
  "process_message c reg message r =
     (case map_of message ''method'' of
        None \<Rightarrow> (Inl (KeyError ''method''), r)
      | Some meth \<Rightarrow>
          (case map_of message ''params'' of
             None \<Rightarrow> (Inl (KeyError ''params''), r)
           | Some params \<Rightarrow>
               (case unpack params of
                  Inl exc \<Rightarrow> (Inl exc, r)
                | Inr ps \<Rightarrow>
                    get_response c (dict_get message ''id'' PNone) reg (meth # ps) r)))"

section \<open>The transport and the serving loop\<close>

text \<open>
  The ZeroMQ socket is outside the repository. Its behaviour during one run is a script:
  \<open>recv_script\<close> lists what the successive \<^verbatim>\<open>recv()\<close> calls do (deliver a message or
  raise), and when it is exhausted \<^verbatim>\<open>recv()\<close> blocks forever; \<open>send_script\<close> lists what
  the successive \<^verbatim>\<open>send()\<close> calls do (\<open>None\<close>: the message is sent; when the script is
  exhausted every send succeeds). \<open>attach_fault\<close> is what \<^verbatim>\<open>bind\<close> or \<^verbatim>\<open>connect\<close>
  raises, if anything. The socket records the messages sent and counts the calls of
  \<^verbatim>\<open>close()\<close>.
\<close>

datatype 'w recv_event = Message 'w | RecvRaises pyexc

record 'w socket =
  attach_fault :: "pyexc option"
  endpoint :: "(bool \<times> string) option"
  recv_script :: "'w recv_event list"
  send_script :: "pyexc option list"
  sent :: "'w list"
  close_calls :: nat

definition sock_recv :: "'w socket \<Rightarrow> ('w recv_event \<times> 'w socket) option" where
  "sock_recv socket =
     (case recv_script socket of
        [] \<Rightarrow> None
      | ev # rest \<Rightarrow> Some (ev, socket\<lparr>recv_script := rest\<rparr>))"

definition sock_send :: "'w socket \<Rightarrow> 'w \<Rightarrow> pyexc option \<times> 'w socket" where
  "sock_send socket w =
     (case send_script socket of
        [] \<Rightarrow> (None, socket\<lparr>sent := sent socket @ [w]\<rparr>)
      | None # rest \<Rightarrow> (None, socket\<lparr>send_script := rest, sent := sent socket @ [w]\<rparr>)
      | Some exc # rest \<Rightarrow> (Some exc, socket\<lparr>send_script := rest\<rparr>))"

definition sock_close :: "'w socket \<Rightarrow> 'w socket" where
  "sock_close socket = socket\<lparr>close_calls := Suc (close_calls socket)\<rparr>"

text \<open>
  \<^verbatim>\<open>iterator = die_after and repeat(None, die_after) or repeat(None)\<close>. An
  \<^verbatim>\<open>itertools.repeat\<close> object is always true, so the expression is
  \<^verbatim>\<open>repeat(None, die_after)\<close> when \<^verbatim>\<open>die_after\<close> is true and \<^verbatim>\<open>repeat(None)\<close> when
  it is false: \<^verbatim>\<open>None\<close> and \<^verbatim>\<open>0\<close> are false. \<^verbatim>\<open>repeat(None, n)\<close> yields nothing
  for a negative \<open>n\<close>, and it takes \<open>n\<close> as a C \<^verbatim>\<open>ssize_t\<close>: for an \<open>n\<close> outside the
  signed 64-bit range the call raises \<^verbatim>\<open>OverflowError\<close>, so the assignment of line 157
  raises, after the socket was attached and before the \<^verbatim>\<open>with\<close> statement.
  \<open>die_after_iterator\<close> is that expression. \<open>make_iterator\<close> is the iterator the loop
  runs on, the value of the expression; when the expression raises the loop is never
  entered and no item is ever taken, which the exhausted iterator stands for.
\<close>

datatype iterator = Repeat nat | RepeatForever

fun iter_next :: "iterator \<Rightarrow> iterator option" where
  "iter_next (Repeat 0) = None"
| "iter_next (Repeat (Suc n)) = Some (Repeat n)"
| "iter_next RepeatForever = Some RepeatForever"

definition py_repeat :: "int \<Rightarrow> pyexc + iterator" where
  "py_repeat n =
     (if int64 n then Inr (Repeat (nat n))
      else Inl (OverflowError ''Python int too large to convert to C ssize_t''))"

definition die_after_iterator :: "int option \<Rightarrow> pyexc + iterator" where
  "die_after_iterator die_after =
     (case die_after of
        None \<Rightarrow> Inr RepeatForever
      | Some n \<Rightarrow> if n \<noteq> 0 then py_repeat n else Inr RepeatForever)"

definition make_iterator :: "int option \<Rightarrow> iterator" where
  "make_iterator die_after =
     (case die_after_iterator die_after of
        Inr iterator \<Rightarrow> iterator
      | Inl exc \<Rightarrow> Repeat 0)"

text \<open>
  One iteration of the \<^verbatim>\<open>for\<close> loop:
  \<^verbatim>\<open>message = BSON(socket.recv()).decode(); socket.send(self.process_message(message))\<close>.
  \<open>Next\<close> is an iteration that ran to its end; \<open>Stop\<close> ends the loop, with an
  exception or because \<^verbatim>\<open>recv()\<close> never returns.
\<close>

datatype loop_result = Completed | Raised pyexc | Blocked

datatype ('w, 'r) cycle_result = Next "'w socket" 'r | Stop loop_result "'w socket" 'r

definition cycle :: "'w codec \<Rightarrow> 'r registry \<Rightarrow> 'w socket \<Rightarrow> 'r \<Rightarrow> ('w, 'r) cycle_result" where
  "cycle c reg socket r =
     (case sock_recv socket of
        None \<Rightarrow> Stop Blocked socket r
      | Some (RecvRaises exc, socket') \<Rightarrow> Stop (Raised exc) socket' r
      | Some (Message w, socket') \<Rightarrow>
          (case decode c w of
             Inl exc \<Rightarrow> Stop (Raised exc) socket' r
           | Inr message \<Rightarrow>
               (case process_message c reg message r of
                  (Inl exc, r') \<Rightarrow> Stop (Raised exc) socket' r'
                | (Inr response, r') \<Rightarrow>
                    (case sock_send socket' response of
                       (Some exc, socket'') \<Rightarrow> Stop (Raised exc) socket'' r'
                     | (None, socket'') \<Rightarrow> Next socket'' r'))))"

function serve_loop ::
  "'w codec \<Rightarrow> 'r registry \<Rightarrow> iterator \<Rightarrow> 'w socket \<Rightarrow> 'r \<Rightarrow> loop_result \<times> 'w socket \<times> 'r" where
  "serve_loop c reg iterator socket r =
     (case iter_next iterator of
        None \<Rightarrow> (Completed, socket, r)
      | Some iterator' \<Rightarrow>
          (case cycle c reg socket r of
             Stop res socket' r' \<Rightarrow> (res, socket', r')
           | Next socket' r' \<Rightarrow> serve_loop c reg iterator' socket' r'))"
  by pat_completeness auto
termination
  by (relation "measure (\<lambda>(c, reg, iterator, socket, r). length (recv_script socket))")
     (auto simp: cycle_def sock_recv_def sock_send_def
           split: list.splits option.splits recv_event.splits sum.splits prod.splits)

declare serve_loop.simps [simp del]

section \<open>The server and its run\<close>

text \<open>
  \<^verbatim>\<open>Server.__init__\<close> stores the transport context, the address, the role and the
  registry. Of the context only \<^verbatim>\<open>self.context.socket(zmq.REP)\<close> is used: \<open>ctx_socket\<close>
  is what that call returns or raises.
\<close>

record ('w, 'r) server =
  ctx_socket :: "pyexc + 'w socket"
  addr :: string
  connect :: bool
  registry :: "'r registry"

text \<open>
  The two \<^verbatim>\<open>catch_exceptions()\<close> scopes belong to the callback and to the logger, both
  defined outside \<^verbatim>\<open>server.py\<close>. A scope is given by what its \<^verbatim>\<open>__exit__\<close> answers for an exception
  that reaches it: \<open>True\<close> suppresses the exception, \<open>False\<close> lets it go on.
\<close>

type_synonym exit_scope = "pyexc \<Rightarrow> bool"

text \<open>
  The attach phase of \<^verbatim>\<open>Server.run\<close>: the socket is created and bound or connected
  inside \<^verbatim>\<open>callback.catch_exceptions()\<close>, then handed to \<^verbatim>\<open>callback.send\<close>. When
  the creation fails and the scope suppresses the failure, the name \<^verbatim>\<open>socket\<close> is unbound
  at \<^verbatim>\<open>callback.send(socket)\<close>. \<open>Inl\<close> carries the exception that leaves \<^verbatim>\<open>run\<close>
  and the socket left behind, if one was created.
\<close>

definition attach ::
  "('w, 'r) server \<Rightarrow> exit_scope \<Rightarrow> (pyexc \<times> 'w socket option) + 'w socket" where
  "attach srv callback =
     (case ctx_socket srv of
        Inl exc \<Rightarrow>
          if callback exc
          then Inl (UnboundLocalError ''local variable socket referenced before assignment'', None)
          else Inl (exc, None)
      | Inr socket \<Rightarrow>
          (case attach_fault socket of
             Some exc \<Rightarrow> if callback exc then Inr socket else Inl (exc, Some socket)
           | None \<Rightarrow> Inr (socket\<lparr>endpoint := Some (connect srv, addr srv)\<rparr>)))"

text \<open>
  The \<^verbatim>\<open>except\<close> clauses around the loop: \<open>None\<close> when the exception is handled
  (\<^verbatim>\<open>ZMQError\<close> with \<^verbatim>\<open>errno == zmq.ETERM\<close>, or \<^verbatim>\<open>KeyboardInterrupt\<close>), otherwise
  the exception that goes on. \<^verbatim>\<open>zmq.ETERM\<close> is libzmq's \<^verbatim>\<open>ZMQ_HAUSNUMERO + 53\<close>.
\<close>

definition zmq_ETERM :: int where
  "zmq_ETERM = 156384765"

definition run_except :: "pyexc \<Rightarrow> pyexc option" where
  "run_except exc =
     (case exc_kind exc of
        ZMQError errno \<Rightarrow> if errno = zmq_ETERM then None else Some exc
      | KeyboardInterrupt \<Rightarrow> None
      | _ \<Rightarrow> Some exc)"

text \<open>
  \<^verbatim>\<open>with nested(run_logger.catch_exceptions(), closing(socket)):\<close> around the
  \<^verbatim>\<open>try\<close>. Leaving the block, \<^verbatim>\<open>closing\<close> closes the socket first, then the logger's
  scope sees the exception, if one is still in flight. When \<^verbatim>\<open>recv()\<close> blocks forever the
  block is never left.
\<close>

datatype run_result = Returns | Raises pyexc | Hangs

definition serving ::
  "'w codec \<Rightarrow> exit_scope \<Rightarrow> 'r registry \<Rightarrow> iterator \<Rightarrow> 'w socket \<Rightarrow> 'r \<Rightarrow>
     run_result \<times> 'w socket \<times> 'r" where
  "serving c run_logger reg iterator socket r =
     (case serve_loop c reg iterator socket r of
        (Blocked, socket', r') \<Rightarrow> (Hangs, socket', r')
      | (Completed, socket', r') \<Rightarrow> (Returns, sock_close socket', r')
      | (Raised exc, socket', r') \<Rightarrow>
          (case run_except exc of
             None \<Rightarrow> (Returns, sock_close socket', r')
           | Some exc' \<Rightarrow>
               (if run_logger exc' then Returns else Raises exc', sock_close socket', r')))"

text \<open>
  \<^verbatim>\<open>Server.run(die_after, callback)\<close>: the attach phase, the iterator, then the
  \<^verbatim>\<open>with\<close> statement. The result is how the call ends, the socket as it is then (if
  one was created) and the registry's state.
\<close>

definition run ::
  "'w codec \<Rightarrow> exit_scope \<Rightarrow> ('w, 'r) server \<Rightarrow> int option \<Rightarrow> exit_scope \<Rightarrow> 'r \<Rightarrow>
     run_result \<times> 'w socket option \<times> 'r" where
  "run c run_logger srv die_after callback r =
     (case attach srv callback of
        Inl (exc, left) \<Rightarrow> (Raises exc, left, r)
      | Inr socket \<Rightarrow>
          (case die_after_iterator die_after of
             Inl exc \<Rightarrow> (Raises exc, Some socket, r)
           | Inr iterator \<Rightarrow>
               (case serving c run_logger (registry srv) iterator socket r of
                  (res, socket', r') \<Rightarrow> (res, Some socket', r'))))"

section \<open>What is assumed of the codec\<close>

text \<open>
  The contract of the wire codec: \<^verbatim>\<open>encode\<close> fails with \<^verbatim>\<open>InvalidDocument\<close> and with
  nothing else; it fails exactly on the documents that hold a value the wire format
  cannot represent; \<^verbatim>\<open>decode\<close> inverts it; and a decoded document holds representable
  values only.
\<close>

definition encode_failures_are_InvalidDocument :: "'w codec \<Rightarrow> bool" where
  "encode_failures_are_InvalidDocument c =
     (\<forall>d exc. encode c d = Inl exc \<longrightarrow> exc_kind exc = InvalidDocument)"

definition encodes_exactly_the_encodable :: "'w codec \<Rightarrow> bool" where
  "encodes_exactly_the_encodable c = (\<forall>d. (\<exists>w. encode c d = Inr w) = encodable (PDict d))"

definition decode_inverts_encode :: "'w codec \<Rightarrow> bool" where
  "decode_inverts_encode c = (\<forall>d w. encode c d = Inr w \<longrightarrow> decode c w = Inr d)"

definition decoded_is_encodable :: "'w codec \<Rightarrow> bool" where
  "decoded_is_encodable c = (\<forall>w d. decode c w = Inr d \<longrightarrow> encodable (PDict d))"

definition bson_contract :: "'w codec \<Rightarrow> bool" where
  "bson_contract c =
     (encode_failures_are_InvalidDocument c \<and> encodes_exactly_the_encodable c \<and>
      decode_inverts_encode c \<and> decoded_is_encodable c)"

text \<open>
  The contract above is that of an encoder whose only failure is \<^verbatim>\<open>InvalidDocument\<close>.
  The encoder of the \<^verbatim>\<open>bson\<close> package also raises \<^verbatim>\<open>OverflowError\<close>, for an
  integer beyond 64 bits, and may raise other exceptions for other values. What follows
  leaves the failures of the encoder open: nothing is assumed about which exception it
  raises for which value.

  \<open>encodes c d\<close>: \<^verbatim>\<open>BSON.encode(d)\<close> returns. \<open>settles c d\<close>: it returns or raises
  \<^verbatim>\<open>InvalidDocument\<close>, the one exception the handlers of the source catch.
  \<open>probe_settles c exc\<close>: so does the probe of \<open>capture_exception\<close> on the
  \<^verbatim>\<open>args\<close> of \<open>exc\<close>.
\<close>

definition encodes :: "'w codec \<Rightarrow> document \<Rightarrow> bool" where
  "encodes c d = (case encode c d of Inr w \<Rightarrow> True | Inl exc \<Rightarrow> False)"

definition settles :: "'w codec \<Rightarrow> document \<Rightarrow> bool" where
  "settles c d = (case encode c d of Inr w \<Rightarrow> True | Inl exc \<Rightarrow> exc_kind exc = InvalidDocument)"

definition probe_settles :: "'w codec \<Rightarrow> pyexc \<Rightarrow> bool" where
  "probe_settles c exc = settles c [(''args'', PList (exc_args exc))]"

text \<open>
  ASCII text without a null byte, and an exception whose type name and final formatted
  line are such text.
\<close>

definition ascii_text :: "string \<Rightarrow> bool" where
  "ascii_text s = list_all (\<lambda>ch. ch \<noteq> CHR 0x00 \<and> of_char ch < (128 :: nat)) s"

definition ascii_exc :: "pyexc \<Rightarrow> bool" where
  "ascii_exc exc =
     (ascii_text (exc_module exc) \<and> ascii_text (exc_name exc) \<and>
      ascii_text (exc_format_final exc))"

text \<open>
  \<open>bson_behaviour\<close>, what is assumed of the encoder instead. A document is encoded
  entry by entry: it encodes when each of its entries, alone in a document, does. Under
  a key that is ASCII text, \<^verbatim>\<open>None\<close> and a string of ASCII text encode, and a
  dictionary encodes when it encodes as a document. An \<^verbatim>\<open>InvalidDocument\<close> that the
  encoder raises has an ASCII type name and message, and \<^verbatim>\<open>args\<close> (its message) that
  encode. \<^verbatim>\<open>decode\<close> inverts \<^verbatim>\<open>encode\<close>, and a decoded document encodes.
\<close>

definition encodes_entry_by_entry :: "'w codec \<Rightarrow> bool" where
  "encodes_entry_by_entry c = (\<forall>d. encodes c d = list_all (\<lambda>kv. encodes c [kv]) d)"

definition encodes_text :: "'w codec \<Rightarrow> bool" where
  "encodes_text c =
     (\<forall>k. ascii_text k \<longrightarrow>
        encodes c [(k, PNone)] \<and> (\<forall>s. ascii_text s \<longrightarrow> encodes c [(k, PStr s)]))"

definition encodes_nested :: "'w codec \<Rightarrow> bool" where
  "encodes_nested c = (\<forall>k d. ascii_text k \<longrightarrow> encodes c [(k, PDict d)] = encodes c d)"

definition InvalidDocument_is_capturable :: "'w codec \<Rightarrow> bool" where
  "InvalidDocument_is_capturable c =
     (\<forall>d exc. encode c d = Inl exc \<and> exc_kind exc = InvalidDocument \<longrightarrow>
        ascii_exc exc \<and> encodes c [(''args'', PList (exc_args exc))])"

definition decoded_encodes :: "'w codec \<Rightarrow> bool" where
  "decoded_encodes c = (\<forall>w d. decode c w = Inr d \<longrightarrow> encodes c d)"

definition bson_behaviour :: "'w codec \<Rightarrow> bool" where
  "bson_behaviour c =
     (encodes_entry_by_entry c \<and> encodes_text c \<and> encodes_nested c \<and>
      InvalidDocument_is_capturable c \<and> decode_inverts_encode c \<and> decoded_encodes c)"

text \<open>
  The message as the specification words it: the formatted text of the exception is
  the entries of \<^verbatim>\<open>format_exception_only\<close> put together, and the message is its last
  line, stripped. \<open>last_line\<close> is what follows the last line break of a text, the
  break that ends the text left aside. \<open>ends_with_one_line\<close>: every entry of
  \<^verbatim>\<open>format_exception_only\<close> ends with a line break and the last entry has no other.
\<close>

definition last_line :: "string \<Rightarrow> string" where
  "last_line s =
     (let t = (if s \<noteq> [] \<and> last s = CHR 0x0A then butlast s else s)
      in rev (takeWhile (\<lambda>ch. ch \<noteq> CHR 0x0A) (rev t)))"

definition last_line_message :: "pyexc \<Rightarrow> string" where
  "last_line_message exc = strip (last_line (concat (format_exception_only exc)))"

definition ends_with_one_line :: "pyexc \<Rightarrow> bool" where
  "ends_with_one_line exc =
     (list_all (\<lambda>entry. entry \<noteq> [] \<and> last entry = CHR 0x0A) (format_exception_only exc)
      \<and> CHR 0x0A \<notin> set (butlast (exc_format_final exc)))"

text \<open>
  \<open>run\<close> reaches the \<^verbatim>\<open>with\<close> statement when the attach phase and the assignment of
  the iterator raise nothing.
\<close>

definition reaches_with :: "('w, 'r) server \<Rightarrow> exit_scope \<Rightarrow> int option \<Rightarrow> bool" where
  "reaches_with srv callback die_after =
     (case attach srv callback of
        Inl failure \<Rightarrow> False
      | Inr socket \<Rightarrow>
          (case die_after_iterator die_after of Inl exc \<Rightarrow> False | Inr iterator \<Rightarrow> True))"

text \<open>
  What the registry did, seen from \<^verbatim>\<open>get_response\<close>: it returned, or it raised an
  exception that \<^verbatim>\<open>except Exception\<close> catches.
\<close>

fun recoverable :: "outcome \<Rightarrow> bool" where
  "recoverable (Return v) = True"
| "recoverable (Raise exc) = is_Exception exc"

text \<open>
  The first \<open>k\<close> iterations of the loop run to their end: \<open>after_cycles k\<close> gives the
  iterator, the socket and the registry's state as they are then, and \<open>None\<close> when the
  loop ends before.
\<close>

fun after_cycles ::
  "nat \<Rightarrow> 'w codec \<Rightarrow> 'r registry \<Rightarrow> iterator \<Rightarrow> 'w socket \<Rightarrow> 'r \<Rightarrow>
     (iterator \<times> 'w socket \<times> 'r) option" where
  "after_cycles 0 c reg iterator socket r = Some (iterator, socket, r)"
| "after_cycles (Suc k) c reg iterator socket r =
     (case iter_next iterator of
        None \<Rightarrow> None
      | Some iterator' \<Rightarrow>
          (case cycle c reg socket r of
             Next socket' r' \<Rightarrow> after_cycles k c reg iterator' socket' r'
           | Stop res socket' r' \<Rightarrow> None))"

text \<open>The next \<open>n\<close> calls of \<^verbatim>\<open>send()\<close> succeed.\<close>

definition sends_succeed :: "nat \<Rightarrow> 'w socket \<Rightarrow> bool" where
  "sends_succeed n socket = list_all (\<lambda>fault. fault = None) (take n (send_script socket))"

section \<open>Reference inputs\<close>

text \<open>
  A codec that meets the contract, with the document itself as the wire message, and a
  few exceptions, a registry and requests on which the results below are evaluated.
\<close>

definition invalid_document :: pyexc where
  "invalid_document =
     \<lparr>exc_kind = InvalidDocument, exc_module = ''bson.errors'', exc_name = ''InvalidDocument'',
      exc_args = [PStr ''Cannot encode object''], exc_format_init = [],
      exc_format_final = ''InvalidDocument: Cannot encode object'' @ [CHR 0x0A]\<rparr>"

definition invalid_bson :: pyexc where
  "invalid_bson =
     \<lparr>exc_kind = OtherException, exc_module = ''bson.errors'', exc_name = ''InvalidBSON'',
      exc_args = [PStr ''bad document''], exc_format_init = [],
      exc_format_final = ''InvalidBSON: bad document'' @ [CHR 0x0A]\<rparr>"

definition loopback_codec :: "document codec" where
  "loopback_codec =
     \<lparr>encode = (\<lambda>d. if encodable (PDict d) then Inr d else Inl invalid_document),
      decode = (\<lambda>w. if encodable (PDict w) then Inr w else Inl invalid_bson)\<rparr>"

definition boom :: pyexc where
  "boom =
     \<lparr>exc_kind = OtherException, exc_module = ''exceptions'', exc_name = ''ValueError'',
      exc_args = [PStr ''boom''], exc_format_init = [],
      exc_format_final = ''ValueError: boom'' @ [CHR 0x0A]\<rparr>"

definition opaque_boom :: pyexc where
  "opaque_boom =
     \<lparr>exc_kind = OtherException, exc_module = ''exceptions'', exc_name = ''ValueError'',
      exc_args = [PStr ''boom'', PObject 0], exc_format_init = [],
      exc_format_final = '' ValueError: boom '' @ [CHR 0x0A]\<rparr>"

definition system_exit :: pyexc where
  "system_exit =
     \<lparr>exc_kind = SystemExit, exc_module = ''exceptions'', exc_name = ''SystemExit'',
      exc_args = [], exc_format_init = [],
      exc_format_final = ''SystemExit'' @ [CHR 0x0A]\<rparr>"

definition keyboard_interrupt :: pyexc where
  "keyboard_interrupt =
     \<lparr>exc_kind = KeyboardInterrupt, exc_module = ''exceptions'',
      exc_name = ''KeyboardInterrupt'', exc_args = [], exc_format_init = [],
      exc_format_final = ''KeyboardInterrupt'' @ [CHR 0x0A]\<rparr>"

definition attribute_error :: pyexc where
  "attribute_error =
     \<lparr>exc_kind = OtherException, exc_module = ''exceptions'', exc_name = ''AttributeError'',
      exc_args = [PStr ''no such method''], exc_format_init = [],
      exc_format_final = ''AttributeError: no such method'' @ [CHR 0x0A]\<rparr>"

text \<open>
  A registry with the methods \<^verbatim>\<open>add\<close> (returns the sum), \<^verbatim>\<open>fail\<close> (raises
  \<^verbatim>\<open>ValueError('boom')\<close>), \<^verbatim>\<open>handle\<close> (returns an object BSON cannot encode),
  \<^verbatim>\<open>quit\<close> (calls \<^verbatim>\<open>sys.exit()\<close>) and \<^verbatim>\<open>interrupt\<close> (is interrupted from the
  keyboard while it runs). Its state counts the calls.
\<close>

definition sample_handler :: "pyval list \<Rightarrow> outcome" where
  "sample_handler args =
     (if args = [PStr ''fail''] then Raise boom
      else if args = [PStr ''quit''] then Raise system_exit
      else if args = [PStr ''interrupt''] then Raise keyboard_interrupt
      else if args = [PStr ''handle''] then Return (PObject 0)
      else case args of
             [PStr m, PInt a, PInt b] \<Rightarrow>
               if m = ''add'' then Return (PInt (a + b)) else Raise attribute_error
           | _ \<Rightarrow> Raise attribute_error)"

definition sample_registry :: "nat registry" where
  "sample_registry args calls = (sample_handler args, Suc calls)"

definition request :: "string \<Rightarrow> pyval list \<Rightarrow> document" where
  "request m ps = [(''method'', PStr m), (''params'', PList ps)]"

definition request_with_id :: "pyval \<Rightarrow> string \<Rightarrow> pyval list \<Rightarrow> document" where
  "request_with_id i m ps = [(''id'', i), (''method'', PStr m), (''params'', PList ps)]"

definition zmq_error :: "int \<Rightarrow> string \<Rightarrow> pyexc" where
  "zmq_error errno msg =
     \<lparr>exc_kind = ZMQError errno, exc_module = ''zmq.core.error'', exc_name = ''ZMQError'',
      exc_args = [PStr msg], exc_format_init = [],
      exc_format_final = ''ZMQError: '' @ msg @ [CHR 0x0A]\<rparr>"

definition context_terminated :: pyexc where
  "context_terminated = zmq_error zmq_ETERM ''Context was terminated''"

definition bad_state :: pyexc where
  "bad_state = zmq_error 156384763 ''Operation cannot be accomplished in current state''"

text \<open>
  A fresh socket that will behave as a script says, a server that listens on it with
  the sample registry, and the two kinds of \<^verbatim>\<open>catch_exceptions()\<close> scope.
\<close>

definition scripted_socket :: "'w recv_event list \<Rightarrow> 'w socket" where
  "scripted_socket script =
     \<lparr>attach_fault = None, endpoint = None, recv_script = script, send_script = [],
      sent = [], close_calls = 0\<rparr>"

definition sample_server :: "document recv_event list \<Rightarrow> (document, nat) server" where
  "sample_server script =
     \<lparr>ctx_socket = Inr (scripted_socket script), addr = ''tcp://127.0.0.1:7341'',
      connect = False, registry = sample_registry\<rparr>"

definition lets_through :: exit_scope where
  "lets_through exc = False"

definition suppresses :: exit_scope where
  "suppresses exc = True"

text \<open>
  A codec that behaves as \<open>bson_behaviour\<close> says and fails in two ways, the document
  itself being the wire message: an integer beyond 64 bits raises \<^verbatim>\<open>OverflowError\<close>,
  any other value that cannot be represented raises \<^verbatim>\<open>InvalidDocument\<close>.
\<close>

definition overflow_error :: pyexc where
  "overflow_error = OverflowError ''MongoDB can only handle up to 8-byte ints''"

definition int64_codec :: "document codec" where
  "int64_codec =
     \<lparr>encode = (\<lambda>d. if overflows (PDict d) then Inl overflow_error
                     else if encodable (PDict d) then Inr d else Inl invalid_document),
      decode = (\<lambda>w. if encodable (PDict w) \<and> \<not> overflows (PDict w) then Inr w
                     else Inl invalid_bson)\<rparr>"

text \<open>
  \<^verbatim>\<open>ValueError('a\nb ')\<close>, whose only formatted entry spans two lines, and
  \<^verbatim>\<open>ValueError(2**64)\<close>, whose \<^verbatim>\<open>args\<close> hold an integer beyond 64 bits.
\<close>

definition two_line_boom :: pyexc where
  "two_line_boom =
     \<lparr>exc_kind = OtherException, exc_module = ''exceptions'', exc_name = ''ValueError'',
      exc_args = [PStr (''a'' @ [CHR 0x0A] @ ''b '')], exc_format_init = [],
      exc_format_final = ''ValueError: a'' @ [CHR 0x0A] @ ''b '' @ [CHR 0x0A]\<rparr>"

definition big_boom :: pyexc where
  "big_boom =
     \<lparr>exc_kind = OtherException, exc_module = ''exceptions'', exc_name = ''ValueError'',
      exc_args = [PInt (2 ^ 64)], exc_format_init = [],
      exc_format_final = ''ValueError: 18446744073709551616'' @ [CHR 0x0A]\<rparr>"

text \<open>
  A registry whose method \<^verbatim>\<open>big\<close> returns \<^verbatim>\<open>2**63\<close> and whose method \<^verbatim>\<open>big_fail\<close>
  raises \<^verbatim>\<open>ValueError(2**64)\<close>; a server on a given socket with that registry; and the
  error of a \<^verbatim>\<open>bind\<close> to an address in use.
\<close>

definition wide_handler :: "pyval list \<Rightarrow> outcome" where
  "wide_handler args =
     (if args = [PStr ''big''] then Return (PInt (2 ^ 63))
      else if args = [PStr ''big_fail''] then Raise big_boom
      else sample_handler args)"

definition wide_registry :: "nat registry" where
  "wide_registry args calls = (wide_handler args, Suc calls)"

definition address_in_use :: pyexc where
  "address_in_use = zmq_error 98 ''Address already in use''"

definition server_on :: "document socket \<Rightarrow> (document, nat) server" where
  "server_on sock =
     \<lparr>ctx_socket = Inr sock, addr = ''tcp://127.0.0.1:7341'', connect = False,
      registry = wide_registry\<rparr>"

section \<open>Properties of error capture\<close>

lemma strip_decomposition:
  "\<exists>pre post. s = pre @ strip s @ post \<and> list_all py_isspace pre \<and> list_all py_isspace post
     \<and> (strip s = [] \<or> (\<not> py_isspace (hd (strip s)) \<and> \<not> py_isspace (last (strip s))))"
proof -
  let ?pre = "takeWhile py_isspace s" and ?t = "dropWhile py_isspace s"
  let ?post = "rev (takeWhile py_isspace (rev ?t))"
  have m: "strip s = rev (dropWhile py_isspace (rev ?t))" by (simp add: strip_def)
  have "rev (takeWhile py_isspace (rev ?t) @ dropWhile py_isspace (rev ?t)) = rev (rev ?t)"
    by (simp only: takeWhile_dropWhile_id)
  then have "rev (dropWhile py_isspace (rev ?t)) @ ?post = ?t"
    by (simp only: rev_append rev_rev_ident)
  then have t: "?t = strip s @ ?post" by (simp only: m)
  have s: "s = ?pre @ strip s @ ?post" using t by (metis takeWhile_dropWhile_id)
  have pre: "list_all py_isspace ?pre" by (simp add: list_all_iff) (meson set_takeWhileD)
  have post: "list_all py_isspace ?post" by (simp add: list_all_iff) (meson set_takeWhileD)
  have ends: "\<not> py_isspace (hd (strip s)) \<and> \<not> py_isspace (last (strip s))" if ne: "strip s \<noteq> []"
  proof -
    from ne m have ne': "dropWhile py_isspace (rev ?t) \<noteq> []" by simp
    then have "\<not> py_isspace (hd (dropWhile py_isspace (rev ?t)))" by (rule hd_dropWhile)
    with ne' m have l: "\<not> py_isspace (last (strip s))" by (simp add: last_rev)
    have tne: "?t \<noteq> []"
    proof
      assume "?t = []"
      then have "strip s = []" unfolding strip_def by (simp only: rev.simps dropWhile.simps)
      with ne show False ..
    qed
    then have "\<not> py_isspace (hd ?t)" by (rule hd_dropWhile)
    moreover from t ne have "hd ?t = hd (strip s)" by (metis hd_append2)
    ultimately show ?thesis using l by simp
  qed
  from s pre post ends show ?thesis by blast
qed

lemma strip_snoc_space:
  assumes "py_isspace ch"
  shows "strip (s @ [ch]) = strip s"
proof (cases "dropWhile py_isspace s = []")
  case True
  then have "\<forall>x\<in>set s. py_isspace x" by (simp add: dropWhile_eq_Nil_conv)
  then have "dropWhile py_isspace (s @ [ch]) = dropWhile py_isspace [ch]"
    by (intro dropWhile_append2) simp
  also have "dropWhile py_isspace [ch] = []" using assms by simp
  finally have "dropWhile py_isspace (s @ [ch]) = []" .
  with True show ?thesis unfolding strip_def by (simp only:)
next
  case False
  then obtain x where "x \<in> set s" "\<not> py_isspace x"
    by (auto simp add: dropWhile_eq_Nil_conv)
  then have "dropWhile py_isspace (s @ [ch]) = dropWhile py_isspace s @ [ch]"
    by (rule dropWhile_append1)
  with assms show ?thesis by (simp add: strip_def)
qed

lemma last_line_snoc:
  assumes "CHR 0x0A \<notin> set line" and "before = [] \<or> last before = CHR 0x0A"
  shows "last_line (before @ line @ [CHR 0x0A]) = line"
proof -
  have "takeWhile (\<lambda>ch. ch \<noteq> CHR 0x0A) (rev line @ rev before) = rev line"
  proof (cases "before = []")
    case True
    with assms(1) show ?thesis by (auto simp add: takeWhile_eq_all_conv)
  next
    case False
    with assms(2) have "hd (rev before) = CHR 0x0A" by (simp add: hd_rev)
    with False have "takeWhile (\<lambda>ch. ch \<noteq> CHR 0x0A) (rev before) = []"
      by (cases "rev before") auto
    moreover have "takeWhile (\<lambda>ch. ch \<noteq> CHR 0x0A) (rev line @ rev before) =
        rev line @ takeWhile (\<lambda>ch. ch \<noteq> CHR 0x0A) (rev before)"
      using assms(1) by (intro takeWhile_append2) auto
    ultimately show ?thesis by (simp only: append_Nil2)
  qed
  then show ?thesis by (simp add: last_line_def butlast_append)
qed

lemma concat_ends_with_newline:
  "list_all (\<lambda>entry. entry \<noteq> [] \<and> last entry = CHR 0x0A) entries \<Longrightarrow>
     concat entries = [] \<or> last (concat entries) = CHR 0x0A"
  by (induction entries rule: rev_induct) auto

lemma one_line_message:
  assumes "ends_with_one_line exc"
  shows "strip (last (format_exception_only exc)) = last_line_message exc"
proof -
  let ?final = "exc_format_final exc"
  from assms have init: "list_all (\<lambda>entry. entry \<noteq> [] \<and> last entry = CHR 0x0A) (exc_format_init exc)"
    and fin: "?final \<noteq> []" "last ?final = CHR 0x0A" "CHR 0x0A \<notin> set (butlast ?final)"
    by (simp_all add: ends_with_one_line_def format_exception_only_def)
  from fin have final: "?final = butlast ?final @ [CHR 0x0A]"
    by (metis append_butlast_last_id)
  have "concat (format_exception_only exc) =
          concat (exc_format_init exc) @ butlast ?final @ [CHR 0x0A]"
    using final by (simp add: format_exception_only_def)
  with last_line_snoc [OF fin(3) concat_ends_with_newline [OF init]]
  have "last_line (concat (format_exception_only exc)) = butlast ?final" by simp
  moreover have "py_isspace (CHR 0x0A)" by (simp add: py_isspace_def)
  then have "strip (butlast ?final @ [CHR 0x0A]) = strip (butlast ?final)"
    by (rule strip_snoc_space)
  ultimately show ?thesis using final
    by (simp add: last_line_message_def format_exception_only_def)
qed

text \<open>
  C4, as the code has it, for every exception whose probe settles (it returns, or it
  raises \<^verbatim>\<open>InvalidDocument\<close>). \<open>capture_exception\<close> returns a record with \<^verbatim>\<open>type\<close>,
  \<^verbatim>\<open>message\<close> and possibly \<^verbatim>\<open>args\<close>, and no other key. The \<^verbatim>\<open>type\<close> is the module
  name and the type name joined by a dot. The \<^verbatim>\<open>message\<close> is the last entry of
  \<^verbatim>\<open>format_exception_only\<close> with the whitespace around it removed: the entry is the
  message between two runs of whitespace, and the message neither starts nor ends with
  whitespace. It is the whole entry, over several lines when the entry has several; when
  the entry holds one line it is the last line of the formatted text. The record has
  \<^verbatim>\<open>args\<close> if and only if the probe returns, and they are the exception's \<^verbatim>\<open>args\<close>.
\<close>

theorem capture_exception_record:
  assumes "probe_settles c exc"
  shows "\<exists>error message pre post.
           capture_exception c exc = Inr (PDict error)
           \<and> map_of error ''type'' = Some (PStr (exc_module exc @ ''.'' @ exc_name exc))
           \<and> map_of error ''message'' = Some (PStr message)
           \<and> last (format_exception_only exc) = pre @ message @ post
           \<and> list_all py_isspace pre \<and> list_all py_isspace post
           \<and> (message = [] \<or> (\<not> py_isspace (hd message) \<and> \<not> py_isspace (last message)))
           \<and> (ends_with_one_line exc \<longrightarrow> message = last_line_message exc)
           \<and> (map_of error ''args'' \<noteq> None) =
               (\<exists>w. encode c [(''args'', PList (exc_args exc))] = Inr w)
           \<and> map_of error ''args'' \<in> {None, Some (PList (exc_args exc))}
           \<and> fst ` set error \<subseteq> {''type'', ''message'', ''args''}"
proof -
  let ?entry = "last (format_exception_only exc)"
  from strip_decomposition [of ?entry] obtain pre post
    where sd: "?entry = pre @ strip ?entry @ post" "list_all py_isspace pre"
      "list_all py_isspace post"
      "strip ?entry = [] \<or> (\<not> py_isspace (hd (strip ?entry)) \<and> \<not> py_isspace (last (strip ?entry)))"
    by blast
  have one: "ends_with_one_line exc \<longrightarrow> strip ?entry = last_line_message exc"
    using one_line_message by blast
  show ?thesis
  proof (cases "encode c [(''args'', PList (exc_args exc))]")
    case (Inl probe_exc)
    with assms have "exc_kind probe_exc = InvalidDocument"
      by (simp add: probe_settles_def settles_def)
    with Inl have "capture_exception c exc =
        Inr (PDict [(''type'', PStr (exc_module exc @ ''.'' @ exc_name exc)),
                    (''message'', PStr (strip ?entry))])"
      by (simp add: capture_exception_def)
    with Inl sd one show ?thesis by (intro exI [of _ "[(''type'', _), (''message'', _)]"]
        exI [of _ "strip ?entry"] exI [of _ pre] exI [of _ post]) simp
  next
    case (Inr w)
    then have "capture_exception c exc =
        Inr (PDict [(''type'', PStr (exc_module exc @ ''.'' @ exc_name exc)),
                    (''message'', PStr (strip ?entry)),
                    (''args'', PList (exc_args exc))])"
      by (simp add: capture_exception_def)
    with Inr sd one show ?thesis
      by (intro exI [of _ "[(''type'', _), (''message'', _), (''args'', _)]"]
        exI [of _ "strip ?entry"] exI [of _ pre] exI [of _ post]) simp
  qed
qed

theorem capture_exception_record_witness:
  "probe_settles int64_codec boom \<and> ends_with_one_line boom
   \<and> (\<exists>error. capture_exception int64_codec boom = Inr (PDict error)
         \<and> map_of error ''type'' = Some (PStr ''exceptions.ValueError'')
         \<and> map_of error ''message'' = Some (PStr ''ValueError: boom'')
         \<and> map_of error ''args'' = Some (PList [PStr ''boom'']))
   \<and> probe_settles int64_codec opaque_boom \<and> ends_with_one_line opaque_boom
   \<and> (\<exists>error. capture_exception int64_codec opaque_boom = Inr (PDict error)
         \<and> map_of error ''type'' = Some (PStr ''exceptions.ValueError'')
         \<and> map_of error ''message'' = Some (PStr ''ValueError: boom'')
         \<and> map_of error ''args'' = None)"
proof -
  have p1: "probe_settles int64_codec boom" and p2: "probe_settles int64_codec opaque_boom"
    by (simp_all add: probe_settles_def settles_def int64_codec_def boom_def opaque_boom_def
        invalid_document_def)
  have l1: "ends_with_one_line boom" and l2: "ends_with_one_line opaque_boom"
    by (simp_all add: ends_with_one_line_def format_exception_only_def boom_def opaque_boom_def)
  have 1: "(\<exists>w. encode int64_codec [(''args'', PList (exc_args boom))] = Inr w)"
    by (simp add: int64_codec_def boom_def)
  have 2: "\<not> (\<exists>w. encode int64_codec [(''args'', PList (exc_args opaque_boom))] = Inr w)"
    by (simp add: int64_codec_def opaque_boom_def)
  have 3: "exc_module boom @ ''.'' @ exc_name boom = ''exceptions.ValueError''"
    "last_line_message boom = ''ValueError: boom''"
    "exc_module opaque_boom @ ''.'' @ exc_name opaque_boom = ''exceptions.ValueError''"
    "last_line_message opaque_boom = ''ValueError: boom''"
    "exc_args boom = [PStr ''boom'']"
    by (simp_all add: boom_def opaque_boom_def format_exception_only_def last_line_message_def
        last_line_def strip_def py_isspace_def)
  from capture_exception_record [OF p1] l1 1 3
  have "\<exists>error. capture_exception int64_codec boom = Inr (PDict error)
         \<and> map_of error ''type'' = Some (PStr ''exceptions.ValueError'')
         \<and> map_of error ''message'' = Some (PStr ''ValueError: boom'')
         \<and> map_of error ''args'' = Some (PList [PStr ''boom''])"
    by auto
  moreover
  from capture_exception_record [OF p2] l2 2 3
  have "\<exists>error. capture_exception int64_codec opaque_boom = Inr (PDict error)
         \<and> map_of error ''type'' = Some (PStr ''exceptions.ValueError'')
         \<and> map_of error ''message'' = Some (PStr ''ValueError: boom'')
         \<and> map_of error ''args'' = None"
    by auto
  ultimately show ?thesis using p1 p2 l1 l2 by blast
qed

text \<open>
  C4 as stated fails on the message. For \<^verbatim>\<open>ValueError('a\nb ')\<close> the formatted text
  is \<^verbatim>\<open>ValueError: a\<close>, a line break, \<^verbatim>\<open>b \<close> and a line break; its last line,
  stripped, is \<^verbatim>\<open>b\<close>. \<^verbatim>\<open>format_exception_only\<close> returns that text as one entry, and
  the record holds the whole entry, stripped: two lines.
\<close>

theorem capture_exception_message_counterexample:
  "concat (format_exception_only two_line_boom) =
     ''ValueError: a'' @ [CHR 0x0A] @ ''b '' @ [CHR 0x0A]
   \<and> last_line_message two_line_boom = ''b''
   \<and> capture_exception int64_codec two_line_boom =
       Inr (PDict [(''type'', PStr ''exceptions.ValueError''),
                   (''message'', PStr (''ValueError: a'' @ [CHR 0x0A] @ ''b'')),
                   (''args'', PList [PStr (''a'' @ [CHR 0x0A] @ ''b '')])])"
  by (simp add: capture_exception_def int64_codec_def two_line_boom_def
      format_exception_only_def last_line_message_def last_line_def strip_def py_isspace_def
      Let_def)

text \<open>
  The handler of the probe catches \<^verbatim>\<open>InvalidDocument\<close> and nothing else. For
  \<^verbatim>\<open>ValueError(2**64)\<close> the probe raises \<^verbatim>\<open>OverflowError\<close>, which leaves
  \<open>capture_exception\<close> and, from the handler of \<open>get_response\<close>, \<open>get_response\<close>.
\<close>

lemma probe_overflow_leaves_capture_exception:
  "is_Exception big_boom
   \<and> encode int64_codec [(''args'', PList (exc_args big_boom))] = Inl overflow_error
   \<and> capture_exception int64_codec big_boom = Inl overflow_error
   \<and> get_response int64_codec (PInt 7) wide_registry [PStr ''big_fail''] 0 =
       (Inl overflow_error, 1)"
  by (simp add: get_response_def call_func_def capture_exception_def int64_codec_def
      wide_registry_def wide_handler_def big_boom_def is_Exception_def overflow_error_def
      OverflowError_def int64_def Let_def)

section \<open>Properties of the response builder\<close>


lemma contract_encode_ok:
  "bson_contract c \<Longrightarrow> encodable (PDict d) \<Longrightarrow> \<exists>w. encode c d = Inr w \<and> decode c w = Inr d"
  unfolding bson_contract_def encodes_exactly_the_encodable_def decode_inverts_encode_def
  by metis

lemma contract_encode_Inr:
  "bson_contract c \<Longrightarrow> encode c d = Inr w \<Longrightarrow> encodable (PDict d) \<and> decode c w = Inr d"
  unfolding bson_contract_def encodes_exactly_the_encodable_def decode_inverts_encode_def
  by metis

lemma contract_encode_Inl:
  "bson_contract c \<Longrightarrow> encode c d = Inl exc \<Longrightarrow>
     \<not> encodable (PDict d) \<and> exc_kind exc = InvalidDocument"
  unfolding bson_contract_def encodes_exactly_the_encodable_def
    encode_failures_are_InvalidDocument_def
  by (metis Inl_Inr_False)




text \<open>The error record is built from strings and from \<^verbatim>\<open>args\<close> that passed the probe.\<close>

lemma capture_exception_encodable:
  assumes "bson_contract c"
  shows "\<exists>error. capture_exception c exc = Inr error \<and> encodable error"
proof (cases "encode c [(''args'', PList (exc_args exc))]")
  case (Inl probe_exc)
  with assms have "exc_kind probe_exc = InvalidDocument"
    by (simp add: contract_encode_Inl)
  with Inl show ?thesis by (simp add: capture_exception_def)
next
  case (Inr w)
  have "encodable (PDict [(''args'', PList (exc_args exc))])"
    by (rule conjunct1 [OF contract_encode_Inr [OF assms Inr]])
  with Inr show ?thesis by (simp add: capture_exception_def)
qed

lemma capture_exception_type_message:
  assumes "capture_exception c exc = Inr error"
  shows "\<exists>fields. error = PDict fields
           \<and> map_of fields ''type'' = Some (PStr (exc_module exc @ ''.'' @ exc_name exc))
           \<and> map_of fields ''message'' =
               Some (PStr (strip (last (format_exception_only exc))))"
  using assms
  by (cases "encode c [(''args'', PList (exc_args exc))]")
     (auto simp: capture_exception_def split: if_splits)

lemma map_of_assemble:
  "map_of (assemble message_id result error) ''result'' = Some result"
  "map_of (assemble message_id result error) ''error'' = Some error"
  "map_of (assemble message_id result error) ''id'' =
     (if message_id = PNone then None else Some message_id)"
  by (simp_all add: assemble_def Let_def)

lemma encodable_assemble:
  "encodable (PDict (assemble message_id result error)) =
     (encodable message_id \<and> encodable result \<and> encodable error)"
  by (auto simp: assemble_def Let_def)


lemma map_of_fallback:
  "map_of (AList.update ''result'' PNone
       (AList.update ''error'' error' (assemble message_id result error))) ''result'' = Some PNone"
  "map_of (AList.update ''result'' PNone
       (AList.update ''error'' error' (assemble message_id result error))) ''error'' = Some error'"
  "map_of (AList.update ''result'' PNone
       (AList.update ''error'' error' (assemble message_id result error))) ''id'' =
     (if message_id = PNone then None else Some message_id)"
  by (simp_all add: assemble_def Let_def)

lemma encode_response_first:
  assumes "bson_contract c" and "encodable (PDict response)"
  shows "\<exists>w. encode_response c response = Inr w \<and> encode c response = Inr w
           \<and> decode c w = Inr response"
proof -
  from contract_encode_ok [OF assms] obtain w
    where "encode c response = Inr w" "decode c w = Inr response" by blast
  then show ?thesis by (simp add: encode_response_def)
qed


lemma encode_response_id:
  assumes c: "bson_contract c"
    and ret: "encode_response c (assemble message_id result error) = Inr w"
  shows "\<exists>response. decode c w = Inr response
           \<and> map_of response ''id'' = (if message_id = PNone then None else Some message_id)"
proof (cases "encode c (assemble message_id result error)")
  case (Inr w')
  with ret have "w' = w" by (simp add: encode_response_def)
  with contract_encode_Inr [OF c Inr] show ?thesis by (simp add: map_of_assemble)
next
  case (Inl exc)
  from contract_encode_Inl [OF c Inl] have kind: "exc_kind exc = InvalidDocument" by simp
  from capture_exception_encodable [OF c, of exc] obtain error'
    where cap: "capture_exception c exc = Inr error'" by blast
  from ret Inl kind cap have "encode c (AList.update ''result'' PNone
       (AList.update ''error'' error' (assemble message_id result error))) = Inr w"
    by (simp add: encode_response_def)
  from contract_encode_Inr [OF c this] show ?thesis by (simp add: map_of_fallback)
qed



lemma get_response_id:
  assumes c: "bson_contract c"
    and ret: "get_response c message_id func args r = (Inr w, r')"
  shows "\<exists>response. decode c w = Inr response
           \<and> map_of response ''id'' = (if message_id = PNone then None else Some message_id)"
proof -
  from ret obtain result error
    where "encode_response c (assemble message_id result error) = Inr w"
    by (auto simp: get_response_def split: prod.splits sum.splits)
  from encode_response_id [OF c this] show ?thesis .
qed

lemma ascii_text_append: "ascii_text (s @ t) = (ascii_text s \<and> ascii_text t)"
  by (simp add: ascii_text_def)

lemma set_strip: "set (strip s) \<subseteq> set s"
proof
  fix x
  assume "x \<in> set (strip s)"
  then have "x \<in> set (dropWhile py_isspace (rev (dropWhile py_isspace s)))"
    by (simp only: strip_def set_rev)
  then have "x \<in> set (rev (dropWhile py_isspace s))" by (rule set_dropWhileD)
  then have "x \<in> set (dropWhile py_isspace s)" by (simp only: set_rev)
  then show "x \<in> set s" by (rule set_dropWhileD)
qed

lemma ascii_text_strip: "ascii_text s \<Longrightarrow> ascii_text (strip s)"
  using set_strip [of s] unfolding ascii_text_def list_all_iff by blast

lemma encodes_Inr: "encodes c d = (\<exists>w. encode c d = Inr w)"
  by (cases "encode c d") (simp_all add: encodes_def)

lemma settles_cases:
  "settles c d \<Longrightarrow>
     (\<exists>w. encode c d = Inr w) \<or> (\<exists>exc. encode c d = Inl exc \<and> exc_kind exc = InvalidDocument)"
  by (cases "encode c d") (simp_all add: settles_def)

lemma int64_behaviour: "bson_behaviour int64_codec"
proof -
  have enc: "encodes int64_codec d = (encodable (PDict d) \<and> \<not> overflows (PDict d))" for d
    by (simp add: encodes_def int64_codec_def)
  have "encodes_entry_by_entry int64_codec"
    unfolding encodes_entry_by_entry_def enc
    by (auto simp: list_all_iff list_ex_iff)
  moreover have "encodes_text int64_codec"
    unfolding encodes_text_def enc by simp
  moreover have "encodes_nested int64_codec"
    unfolding encodes_nested_def enc by simp
  moreover have "InvalidDocument_is_capturable int64_codec"
  proof -
    have "exc = invalid_document"
      if "encode int64_codec d = Inl exc" "exc_kind exc = InvalidDocument" for d exc
      using that
      by (auto simp: int64_codec_def overflow_error_def OverflowError_def split: if_splits)
    moreover have "ascii_exc invalid_document"
      by (simp add: ascii_exc_def ascii_text_def invalid_document_def)
    moreover have "encodes int64_codec [(''args'', PList (exc_args invalid_document))]"
      by (simp add: enc invalid_document_def)
    ultimately show ?thesis unfolding InvalidDocument_is_capturable_def by blast
  qed
  moreover have "decode_inverts_encode int64_codec"
    unfolding decode_inverts_encode_def
    by (auto simp: int64_codec_def split: if_splits)
  moreover have "decoded_encodes int64_codec"
    unfolding decoded_encodes_def enc
    by (auto simp: int64_codec_def split: if_splits)
  ultimately show ?thesis by (simp add: bson_behaviour_def)
qed

lemma behaviour_entries:
  "bson_behaviour c \<Longrightarrow> encodes c d = list_all (\<lambda>kv. encodes c [kv]) d"
  unfolding bson_behaviour_def encodes_entry_by_entry_def by blast

lemma behaviour_none: "bson_behaviour c \<Longrightarrow> ascii_text k \<Longrightarrow> encodes c [(k, PNone)]"
  unfolding bson_behaviour_def encodes_text_def by blast

lemma behaviour_string:
  "bson_behaviour c \<Longrightarrow> ascii_text k \<Longrightarrow> ascii_text s \<Longrightarrow> encodes c [(k, PStr s)]"
  unfolding bson_behaviour_def encodes_text_def by blast

lemma behaviour_nested:
  "bson_behaviour c \<Longrightarrow> ascii_text k \<Longrightarrow> encodes c [(k, PDict d)] = encodes c d"
  unfolding bson_behaviour_def encodes_nested_def by blast

lemma behaviour_InvalidDocument:
  "bson_behaviour c \<Longrightarrow> encode c d = Inl exc \<Longrightarrow> exc_kind exc = InvalidDocument \<Longrightarrow>
     ascii_exc exc \<and> encodes c [(''args'', PList (exc_args exc))]"
  unfolding bson_behaviour_def InvalidDocument_is_capturable_def by blast

lemma behaviour_decode:
  "bson_behaviour c \<Longrightarrow> encode c d = Inr w \<Longrightarrow> decode c w = Inr d"
  unfolding bson_behaviour_def decode_inverts_encode_def by blast

lemma behaviour_decoded_id:
  assumes c: "bson_behaviour c" and wire: "decode c w = Inr message"
  shows "dict_get message ''id'' PNone = PNone
           \<or> encodes c [(''id'', dict_get message ''id'' PNone)]"
proof (cases "map_of message ''id''")
  case None
  then show ?thesis by (simp add: dict_get_def)
next
  case (Some v)
  then have "(''id'', v) \<in> set message" by (rule map_of_SomeD)
  moreover from c wire have "encodes c message"
    unfolding bson_behaviour_def decoded_encodes_def by blast
  ultimately have "encodes c [(''id'', v)]"
    using behaviour_entries [OF c, of message] by (auto simp: list_all_iff)
  with Some show ?thesis by (simp add: dict_get_def)
qed

lemma keys_are_ascii_text:
  "ascii_text ''result''" "ascii_text ''error''" "ascii_text ''id''"
  "ascii_text ''type''" "ascii_text ''message''" "ascii_text ''args''" "ascii_text ''.''"
  by (simp_all add: ascii_text_def)

text \<open>
  The error record of an exception with an ASCII type name and message, whose probe
  settles, can be encoded as the \<^verbatim>\<open>error\<close> entry of a response.
\<close>

lemma capture_exception_settled:
  assumes c: "bson_behaviour c" and strs: "ascii_exc exc" and probe: "probe_settles c exc"
  shows "\<exists>error. capture_exception c exc = Inr error \<and> encodes c [(''error'', error)]"
proof -
  let ?type = "PStr (exc_module exc @ ''.'' @ exc_name exc)"
  let ?message = "PStr (strip (last (format_exception_only exc)))"
  from strs have t: "encodes c [(''type'', ?type)]"
    by (intro behaviour_string [OF c])
       (simp_all add: ascii_text_def ascii_exc_def)
  from strs have "ascii_text (strip (exc_format_final exc))"
    by (intro ascii_text_strip) (simp add: ascii_exc_def)
  then have m: "encodes c [(''message'', ?message)]"
    by (intro behaviour_string [OF c]) (simp_all add: keys_are_ascii_text format_exception_only_def)
  show ?thesis
  proof (cases "encode c [(''args'', PList (exc_args exc))]")
    case (Inl probe_exc)
    with probe have "exc_kind probe_exc = InvalidDocument"
      by (simp add: probe_settles_def settles_def)
    with Inl have cap: "capture_exception c exc =
        Inr (PDict [(''type'', ?type), (''message'', ?message)])"
      by (simp add: capture_exception_def)
    from t m have "encodes c [(''type'', ?type), (''message'', ?message)]"
      by (subst behaviour_entries [OF c]) simp
    then have "encodes c [(''error'', PDict [(''type'', ?type), (''message'', ?message)])]"
      by (simp add: behaviour_nested [OF c] keys_are_ascii_text)
    with cap show ?thesis by simp
  next
    case (Inr w)
    then have cap: "capture_exception c exc =
        Inr (PDict [(''type'', ?type), (''message'', ?message),
                    (''args'', PList (exc_args exc))])"
      by (simp add: capture_exception_def)
    from Inr have "encodes c [(''args'', PList (exc_args exc))]" by (simp add: encodes_def)
    with t m have "encodes c [(''type'', ?type), (''message'', ?message),
                    (''args'', PList (exc_args exc))]"
      by (subst behaviour_entries [OF c]) simp
    then have "encodes c [(''error'', PDict [(''type'', ?type), (''message'', ?message),
                    (''args'', PList (exc_args exc))])]"
      by (simp add: behaviour_nested [OF c] keys_are_ascii_text)
    with cap show ?thesis by simp
  qed
qed

lemma capture_exception_returns:
  "probe_settles c exc \<Longrightarrow> \<exists>error. capture_exception c exc = Inr error"
  by (cases "encode c [(''args'', PList (exc_args exc))]")
     (simp_all add: capture_exception_def probe_settles_def settles_def)

lemma encodes_assemble:
  assumes c: "bson_behaviour c"
  shows "encodes c (assemble message_id result error) =
     (encodes c [(''result'', result)] \<and> encodes c [(''error'', error)]
      \<and> (message_id = PNone \<or> encodes c [(''id'', message_id)]))"
  by (subst behaviour_entries [OF c]) (auto simp: assemble_def Let_def)

lemma encodes_fallback:
  assumes c: "bson_behaviour c"
  shows "encodes c (AList.update ''result'' PNone
       (AList.update ''error'' error' (assemble message_id result error))) =
     (encodes c [(''error'', error')] \<and> (message_id = PNone \<or> encodes c [(''id'', message_id)]))"
  by (subst behaviour_entries [OF c])
     (auto simp: assemble_def Let_def behaviour_none [OF c] keys_are_ascii_text)

text \<open>
  The fallback of \<open>get_response\<close>: when the first encode raises \<^verbatim>\<open>InvalidDocument\<close>
  and the correlation id can be encoded, the second encode returns, on the response with
  a null \<^verbatim>\<open>result\<close> and the record of that \<^verbatim>\<open>InvalidDocument\<close> as \<^verbatim>\<open>error\<close>.
\<close>

lemma encode_response_fallback:
  assumes c: "bson_behaviour c"
    and mid: "message_id = PNone \<or> encodes c [(''id'', message_id)]"
    and fails: "encode c (assemble message_id result error) = Inl exc"
    and kind: "exc_kind exc = InvalidDocument"
  shows "\<exists>error' w. capture_exception c exc = Inr error'
           \<and> encode_response c (assemble message_id result error) = Inr w
           \<and> decode c w = Inr (AList.update ''result'' PNone
                (AList.update ''error'' error' (assemble message_id result error)))"
proof -
  from behaviour_InvalidDocument [OF c fails kind]
  have strs: "ascii_exc exc" and args: "encodes c [(''args'', PList (exc_args exc))]" by simp_all
  from args have "probe_settles c exc"
    by (auto simp: probe_settles_def settles_def encodes_Inr)
  from capture_exception_settled [OF c strs this] obtain error'
    where cap: "capture_exception c exc = Inr error'" and enc: "encodes c [(''error'', error')]"
    by blast
  from mid enc have "encodes c (AList.update ''result'' PNone
       (AList.update ''error'' error' (assemble message_id result error)))"
    by (simp only: encodes_fallback [OF c])
  then obtain w where w: "encode c (AList.update ''result'' PNone
       (AList.update ''error'' error' (assemble message_id result error))) = Inr w"
    by (auto simp: encodes_Inr)
  from behaviour_decode [OF c w] w fails kind cap show ?thesis
    by (simp add: encode_response_def)
qed

lemma encode_response_settled:
  assumes c: "bson_behaviour c"
    and mid: "message_id = PNone \<or> encodes c [(''id'', message_id)]"
    and first: "settles c (assemble message_id result error)"
  shows "\<exists>w. encode_response c (assemble message_id result error) = Inr w"
proof -
  from settles_cases [OF first] show ?thesis
  proof
    assume "\<exists>w. encode c (assemble message_id result error) = Inr w"
    then show ?thesis by (auto simp: encode_response_def)
  next
    assume "\<exists>exc. encode c (assemble message_id result error) = Inl exc
              \<and> exc_kind exc = InvalidDocument"
    then obtain exc where "encode c (assemble message_id result error) = Inl exc"
      "exc_kind exc = InvalidDocument" by blast
    from encode_response_fallback [OF c mid this] show ?thesis by blast
  qed
qed

lemma encode_response_unencodable_id:
  assumes c: "bson_behaviour c"
    and mid: "message_id \<noteq> PNone" "\<not> encodes c [(''id'', message_id)]"
  shows "\<exists>exc. encode_response c (assemble message_id result error) = Inl exc"
proof -
  from mid have "\<not> encodes c (assemble message_id result error)"
    by (simp add: encodes_assemble [OF c])
  then obtain exc where fails: "encode c (assemble message_id result error) = Inl exc"
    by (cases "encode c (assemble message_id result error)") (simp_all add: encodes_def)
  show ?thesis
  proof (cases "exc_kind exc = InvalidDocument")
    case False
    with fails show ?thesis by (simp add: encode_response_def)
  next
    case True
    show ?thesis
    proof (cases "capture_exception c exc")
      case (Inl x)
      with fails True show ?thesis by (simp add: encode_response_def)
    next
      case (Inr error')
      from mid have "\<not> encodes c (AList.update ''result'' PNone
          (AList.update ''error'' error' (assemble message_id result error)))"
        by (simp add: encodes_fallback [OF c])
      then obtain x where "encode c (AList.update ''result'' PNone
          (AList.update ''error'' error' (assemble message_id result error))) = Inl x"
        by (cases "encode c (AList.update ''result'' PNone
          (AList.update ''error'' error' (assemble message_id result error)))")
           (simp_all add: encodes_def)
      with fails True Inr show ?thesis by (simp add: encode_response_def)
    qed
  qed
qed

lemma call_func_state:
  assumes "func args r = (out, r')"
  shows "(\<exists>exc. call_func c func args r = (Inl exc, r'))
           \<or> (\<exists>result error. call_func c func args r = (Inr (result, error), r'))"
proof (cases out)
  case (Return v)
  with assms show ?thesis by (simp add: call_func_def)
next
  case (Raise exc)
  with assms show ?thesis
    by (cases "capture_exception c exc") (simp_all add: call_func_def)
qed

text \<open>
  C1, as the code has it, for an encoder that behaves as \<open>bson_behaviour\<close> says.
  \<open>get_response\<close> returns encoded bytes when the registry returns or raises an
  exception derived from \<^verbatim>\<open>Exception\<close>, the encoder raises nothing but
  \<^verbatim>\<open>InvalidDocument\<close> in the probe of \<open>capture_exception\<close> and in the first encode of
  the response, and the correlation id is absent or can be encoded; the first encode
  may fail. An exception of the registry that derives from \<^verbatim>\<open>BaseException\<close> only
  (\<^verbatim>\<open>KeyboardInterrupt\<close>, \<^verbatim>\<open>SystemExit\<close>, \<^verbatim>\<open>GeneratorExit\<close>) is not caught and leaves
  \<open>get_response\<close>. With a correlation id that cannot be encoded \<open>get_response\<close>
  returns no bytes, whatever the registry does: it raises.
\<close>

theorem get_response_returns_or_propagates:
  assumes c: "bson_behaviour c" and call: "func args r = (out, r')"
  shows "(recoverable out
            \<and> (\<forall>exc. out = Raise exc \<longrightarrow> probe_settles c exc)
            \<and> (\<forall>result error. call_func c func args r = (Inr (result, error), r') \<longrightarrow>
                  settles c (assemble message_id result error))
            \<and> (message_id = PNone \<or> encodes c [(''id'', message_id)])
          \<longrightarrow> (\<exists>w. get_response c message_id func args r = (Inr w, r')))
         \<and> (\<forall>exc. out = Raise exc \<and> \<not> is_Exception exc \<longrightarrow>
               get_response c message_id func args r = (Inl exc, r'))
         \<and> (message_id \<noteq> PNone \<and> \<not> encodes c [(''id'', message_id)] \<longrightarrow>
               (\<exists>exc. get_response c message_id func args r = (Inl exc, r')))"
proof (intro conjI impI allI)
  assume hyps: "recoverable out
            \<and> (\<forall>exc. out = Raise exc \<longrightarrow> probe_settles c exc)
            \<and> (\<forall>result error. call_func c func args r = (Inr (result, error), r') \<longrightarrow>
                  settles c (assemble message_id result error))
            \<and> (message_id = PNone \<or> encodes c [(''id'', message_id)])"
  have "\<exists>result error. call_func c func args r = (Inr (result, error), r')"
  proof (cases out)
    case (Return v)
    with call show ?thesis by (simp add: call_func_def)
  next
    case (Raise exc)
    with hyps have "probe_settles c exc" "is_Exception exc" by simp_all
    with capture_exception_returns [of c exc] call Raise show ?thesis
      by (auto simp: call_func_def)
  qed
  then obtain result error where cf: "call_func c func args r = (Inr (result, error), r')"
    by blast
  with hyps have "settles c (assemble message_id result error)" by blast
  from encode_response_settled [OF c _ this] hyps cf
  show "\<exists>w. get_response c message_id func args r = (Inr w, r')"
    by (auto simp: get_response_def)
next
  fix exc
  assume "out = Raise exc \<and> \<not> is_Exception exc"
  with call show "get_response c message_id func args r = (Inl exc, r')"
    by (simp add: get_response_def call_func_def)
next
  assume mid: "message_id \<noteq> PNone \<and> \<not> encodes c [(''id'', message_id)]"
  from call_func_state [of func args r out r' c, OF call]
  show "\<exists>exc. get_response c message_id func args r = (Inl exc, r')"
  proof
    assume "\<exists>exc. call_func c func args r = (Inl exc, r')"
    then show ?thesis by (auto simp: get_response_def)
  next
    assume "\<exists>result error. call_func c func args r = (Inr (result, error), r')"
    then obtain result error where cf: "call_func c func args r = (Inr (result, error), r')"
      by blast
    from encode_response_unencodable_id [OF c, of message_id result error] mid obtain exc
      where "encode_response c (assemble message_id result error) = Inl exc" by blast
    with cf show ?thesis by (simp add: get_response_def)
  qed
qed

theorem get_response_returns_or_propagates_witness:
  "bson_behaviour int64_codec
   \<and> (\<exists>w. get_response int64_codec (PInt 7) sample_registry [PStr ''add'', PInt 2, PInt 3] 0 =
          (Inr w, 1))
   \<and> (\<exists>w. get_response int64_codec (PInt 7) sample_registry [PStr ''fail''] 0 = (Inr w, 1))
   \<and> (\<exists>w. get_response int64_codec (PInt 7) sample_registry [PStr ''handle''] 0 = (Inr w, 1))
   \<and> get_response int64_codec (PInt 7) sample_registry [PStr ''quit''] 0 = (Inl system_exit, 1)
   \<and> (\<exists>exc. get_response int64_codec (PObject 1) sample_registry [PStr ''add'', PInt 2, PInt 3] 0 =
          (Inl exc, 1))"
proof -
  note evals = call_func_def capture_exception_def probe_settles_def settles_def encodes_def
    assemble_def int64_codec_def is_Exception_def boom_def system_exit_def invalid_document_def
    int64_def Let_def
  have add: "sample_registry [PStr ''add'', PInt 2, PInt 3] 0 = (Return (PInt 5), 1)"
    and fail: "sample_registry [PStr ''fail''] 0 = (Raise boom, 1)"
    and handle: "sample_registry [PStr ''handle''] 0 = (Return (PObject 0), 1)"
    and quit: "sample_registry [PStr ''quit''] 0 = (Raise system_exit, 1)"
    by (simp_all add: sample_registry_def sample_handler_def)
  have "\<exists>w. get_response int64_codec (PInt 7) sample_registry [PStr ''add'', PInt 2, PInt 3] 0 =
          (Inr w, 1)"
    using get_response_returns_or_propagates
            [where func = sample_registry and args = "[PStr ''add'', PInt 2, PInt 3]" and r = "0::nat"
               and message_id = "PInt 7", OF int64_behaviour add]
    by (simp add: evals add)
  moreover
  have "\<exists>w. get_response int64_codec (PInt 7) sample_registry [PStr ''fail''] 0 = (Inr w, 1)"
    using get_response_returns_or_propagates
            [where func = sample_registry and args = "[PStr ''fail'']" and r = "0::nat"
               and message_id = "PInt 7", OF int64_behaviour fail]
    by (simp add: evals fail)
  moreover
  have "\<exists>w. get_response int64_codec (PInt 7) sample_registry [PStr ''handle''] 0 = (Inr w, 1)"
    using get_response_returns_or_propagates
            [where func = sample_registry and args = "[PStr ''handle'']" and r = "0::nat"
               and message_id = "PInt 7", OF int64_behaviour handle]
    by (simp add: evals handle)
  moreover
  have "get_response int64_codec (PInt 7) sample_registry [PStr ''quit''] 0 = (Inl system_exit, 1)"
    using get_response_returns_or_propagates
            [where func = sample_registry and args = "[PStr ''quit'']" and r = "0::nat"
               and message_id = "PInt 7", OF int64_behaviour quit]
    by (simp add: evals)
  moreover
  have "\<exists>exc. get_response int64_codec (PObject 1) sample_registry [PStr ''add'', PInt 2, PInt 3] 0 =
          (Inl exc, 1)"
    using get_response_returns_or_propagates
            [where func = sample_registry and args = "[PStr ''add'', PInt 2, PInt 3]" and r = "0::nat"
               and message_id = "PObject 1", OF int64_behaviour add]
    by (simp add: evals)
  ultimately show ?thesis using int64_behaviour by blast
qed

text \<open>
  C1 as stated fails on two inputs. A registry method that calls \<^verbatim>\<open>sys.exit()\<close> makes
  \<open>get_response\<close> raise \<^verbatim>\<open>SystemExit\<close>; and with a correlation id that BSON cannot
  encode both encodes fail, so the second one raises \<^verbatim>\<open>InvalidDocument\<close>.
\<close>

theorem get_response_raises_counterexample:
  "get_response int64_codec (PInt 7) sample_registry [PStr ''quit''] 0 = (Inl system_exit, 1)
   \<and> get_response int64_codec (PObject 1) sample_registry [PStr ''add'', PInt 2, PInt 3] 0 =
       (Inl invalid_document, 1)"
  by (simp add: get_response_def call_func_def encode_response_def capture_exception_def
      assemble_def sample_registry_def sample_handler_def is_Exception_def system_exit_def
      int64_codec_def int64_def invalid_document_def Let_def)

section \<open>Properties of the message processor\<close>

lemma process_message_wellformed:
  assumes "map_of message ''method'' = Some meth" and "map_of message ''params'' = Some params"
    and "unpack params = Inr ps"
  shows "process_message c reg message r =
           get_response c (dict_get message ''id'' PNone) reg (meth # ps) r"
  using assms by (simp add: process_message_def)

lemma process_message_id:
  assumes c: "bson_contract c"
    and ret: "process_message c reg message r = (Inr w, r')"
  shows "\<exists>response. decode c w = Inr response
           \<and> map_of response ''id'' =
               (case map_of message ''id'' of
                  None \<Rightarrow> None | Some v \<Rightarrow> if v = PNone then None else Some v)"
proof -
  from ret obtain args
    where "get_response c (dict_get message ''id'' PNone) reg args r = (Inr w, r')"
    by (auto simp: process_message_def split: option.splits sum.splits)
  from get_response_id [OF c this] show ?thesis
    by (auto simp: dict_get_def split: option.splits)
qed

lemma process_message_lookups:
  assumes "map_of m1 ''method'' = map_of m2 ''method''"
    and "map_of m1 ''params'' = map_of m2 ''params''"
    and "dict_get m1 ''id'' PNone = dict_get m2 ''id'' PNone"
  shows "process_message c reg m1 r = process_message c reg m2 r"
  using assms unfolding process_message_def by (simp split: option.splits sum.splits)




text \<open>
  C10: a request whose \<^verbatim>\<open>id\<close> is present and null is processed exactly as the same
  request without the \<^verbatim>\<open>id\<close> field: \<open>process_message\<close> gives the same result on
  both; when the request has \<^verbatim>\<open>method\<close> and \<^verbatim>\<open>params\<close> it calls \<open>get_response\<close>
  with \<^verbatim>\<open>None\<close> as the correlation id; and a response, when one is returned, has no
  \<^verbatim>\<open>id\<close> key.
\<close>

theorem null_id_is_absent_id:
  assumes null: "map_of message ''id'' = Some PNone"
  shows "process_message c reg message r =
           process_message c reg (AList.delete ''id'' message) r
         \<and> map_of (AList.delete ''id'' message) ''id'' = None
         \<and> (\<forall>meth params ps.
               map_of message ''method'' = Some meth \<and> map_of message ''params'' = Some params
               \<and> unpack params = Inr ps \<longrightarrow>
               process_message c reg message r = get_response c PNone reg (meth # ps) r)
         \<and> (bson_contract c \<longrightarrow>
               (\<forall>w r'. process_message c reg message r = (Inr w, r') \<longrightarrow>
                  (\<exists>response. decode c w = Inr response \<and> map_of response ''id'' = None)))"
proof (intro conjI allI impI)
  show "process_message c reg message r =
          process_message c reg (AList.delete ''id'' message) r"
    by (rule process_message_lookups) (simp_all add: AList.delete_conv dict_get_def null)
  show "map_of (AList.delete ''id'' message) ''id'' = None"
    by (simp add: AList.delete_conv)
next
  fix meth params ps
  assume "map_of message ''method'' = Some meth \<and> map_of message ''params'' = Some params
            \<and> unpack params = Inr ps"
  then show "process_message c reg message r = get_response c PNone reg (meth # ps) r"
    using null by (simp add: process_message_def dict_get_def)
next
  fix w r'
  assume "bson_contract c" and "process_message c reg message r = (Inr w, r')"
  from process_message_id [OF this] null
  show "\<exists>response. decode c w = Inr response \<and> map_of response ''id'' = None"
    by simp
qed

theorem null_id_is_absent_id_witness:
  "map_of (request_with_id PNone ''add'' [PInt 2, PInt 3]) ''id'' = Some PNone
   \<and> AList.delete ''id'' (request_with_id PNone ''add'' [PInt 2, PInt 3]) =
       request ''add'' [PInt 2, PInt 3]
   \<and> process_message loopback_codec sample_registry
        (request_with_id PNone ''add'' [PInt 2, PInt 3]) 0 =
       process_message loopback_codec sample_registry (request ''add'' [PInt 2, PInt 3]) 0
   \<and> process_message loopback_codec sample_registry
        (request_with_id PNone ''add'' [PInt 2, PInt 3]) 0 =
       get_response loopback_codec PNone sample_registry [PStr ''add'', PInt 2, PInt 3] 0"
proof -
  have null: "map_of (request_with_id PNone ''add'' [PInt 2, PInt 3]) ''id'' = Some PNone"
    by (simp add: request_with_id_def)
  have del: "AList.delete ''id'' (request_with_id PNone ''add'' [PInt 2, PInt 3]) =
       request ''add'' [PInt 2, PInt 3]"
    by (simp add: request_with_id_def request_def AList.delete_eq)
  have look: "map_of (request_with_id PNone ''add'' [PInt 2, PInt 3]) ''method'' =
       Some (PStr ''add'')
     \<and> map_of (request_with_id PNone ''add'' [PInt 2, PInt 3]) ''params'' =
       Some (PList [PInt 2, PInt 3])
     \<and> unpack (PList [PInt 2, PInt 3]) = Inr [PInt 2, PInt 3]"
    by (simp add: request_with_id_def)
  note th = null_id_is_absent_id [OF null, of loopback_codec sample_registry 0]
  from th have "process_message loopback_codec sample_registry
        (request_with_id PNone ''add'' [PInt 2, PInt 3]) 0 =
       process_message loopback_codec sample_registry (request ''add'' [PInt 2, PInt 3]) 0"
    unfolding del by blast
  moreover from th look have "process_message loopback_codec sample_registry
        (request_with_id PNone ''add'' [PInt 2, PInt 3]) 0 =
       get_response loopback_codec PNone sample_registry [PStr ''add'', PInt 2, PInt 3] 0"
    by blast
  ultimately show ?thesis using null del by blast
qed

section \<open>Properties of the serving loop\<close>

lemma sock_send_succeeds:
  assumes "sends_succeed (Suc n) socket"
  shows "sock_send socket w =
           (None, socket\<lparr>send_script := tl (send_script socket), sent := sent socket @ [w]\<rparr>)
         \<and> sends_succeed n
             (socket\<lparr>send_script := tl (send_script socket), sent := sent socket @ [w]\<rparr>)"
  using assms
  by (cases "send_script socket") (auto simp: sock_send_def sends_succeed_def)

lemma cycle_Next:
  assumes "cycle c reg socket r = Next socket' r'"
  shows "\<exists>w rest message resp.
           recv_script socket = Message w # rest \<and> recv_script socket' = rest
           \<and> decode c w = Inr message \<and> process_message c reg message r = (Inr resp, r')
           \<and> sent socket' = sent socket @ [resp]
           \<and> close_calls socket' = close_calls socket"
  using assms
  by (auto simp: cycle_def sock_recv_def sock_send_def
           split: list.splits option.splits recv_event.splits sum.splits prod.splits)

lemma cycle_Stop_close_calls:
  assumes "cycle c reg socket r = Stop res socket' r'"
  shows "close_calls socket' = close_calls socket"
  using assms
  by (auto simp: cycle_def sock_recv_def sock_send_def
           split: list.splits option.splits recv_event.splits sum.splits prod.splits)

lemma serve_loop_close_calls:
  "serve_loop c reg iterator socket r = (res, socket', r') \<Longrightarrow>
     close_calls socket' = close_calls socket"
proof (induction c reg iterator socket r rule: serve_loop.induct)
  case (1 c reg iterator socket r)
  show ?case
  proof (cases "iter_next iterator")
    case None
    with "1.prems" show ?thesis by (simp add: serve_loop.simps [of c reg iterator])
  next
    case (Some iterator')
    show ?thesis
    proof (cases "cycle c reg socket r")
      case (Next s1 r1)
      with Some "1.prems" have "serve_loop c reg iterator' s1 r1 = (res, socket', r')"
        by (simp add: serve_loop.simps [of c reg iterator])
      from "1.IH" [OF Some Next this] cycle_Next [OF Next] show ?thesis by auto
    next
      case (Stop res1 s1 r1)
      with Some "1.prems" have "s1 = socket'"
        by (simp add: serve_loop.simps [of c reg iterator])
      with cycle_Stop_close_calls [OF Stop] show ?thesis by simp
    qed
  qed
qed

lemma serve_loop_after_cycles:
  "after_cycles k c reg iterator socket r = Some (iterator', socket', r') \<Longrightarrow>
     serve_loop c reg iterator socket r = serve_loop c reg iterator' socket' r'"
proof (induction k arbitrary: iterator socket r)
  case 0
  then show ?case by simp
next
  case (Suc k)
  from Suc.prems obtain it1 s1 r1
    where step: "iter_next iterator = Some it1" "cycle c reg socket r = Next s1 r1"
      and rest: "after_cycles k c reg it1 s1 r1 = Some (iterator', socket', r')"
    by (auto split: option.splits cycle_result.splits)
  from step have "serve_loop c reg iterator socket r = serve_loop c reg it1 s1 r1"
    by (simp add: serve_loop.simps [of c reg iterator])
  with Suc.IH [OF rest] show ?case by simp
qed

lemma after_cycles_counts:
  "after_cycles k c reg iterator socket r = Some (iterator', socket', r') \<Longrightarrow>
     length (sent socket') = length (sent socket) + k
     \<and> length (recv_script socket') + k = length (recv_script socket)
     \<and> close_calls socket' = close_calls socket"
proof (induction k arbitrary: iterator socket r)
  case 0
  then show ?case by simp
next
  case (Suc k)
  from Suc.prems obtain it1 s1 r1
    where step: "iter_next iterator = Some it1" "cycle c reg socket r = Next s1 r1"
      and rest: "after_cycles k c reg it1 s1 r1 = Some (iterator', socket', r')"
    by (auto split: option.splits cycle_result.splits)
  from Suc.IH [OF rest] cycle_Next [OF step(2)] show ?case by auto
qed

lemma after_cycles_Repeat:
  "after_cycles k c reg (Repeat n) socket r = Some (iterator', socket', r') \<Longrightarrow>
     k \<le> n \<and> iterator' = Repeat (n - k)"
proof (induction k arbitrary: n socket r)
  case 0
  then show ?case by simp
next
  case (Suc k)
  from Suc.prems obtain m where n: "n = Suc m" by (cases n) auto
  from Suc.prems n obtain s1 r1
    where "after_cycles k c reg (Repeat m) s1 r1 = Some (iterator', socket', r')"
    by (auto split: cycle_result.splits)
  from Suc.IH [OF this] n show ?case by simp
qed

lemma serving_Raised:
  assumes "serve_loop c reg iterator socket r = (Raised exc, socket', r')"
  shows "serving c run_logger reg iterator socket r =
           (if exc_kind exc = ZMQError zmq_ETERM \<or> exc_kind exc = KeyboardInterrupt then Returns
            else if run_logger exc then Returns else Raises exc,
            sock_close socket', r')"
  using assms by (cases "exc_kind exc") (auto simp: serving_def run_except_def)

lemma serve_loop_Stop:
  assumes "iter_next iterator = Some iterator'" and "cycle c reg socket r = Stop res socket' r'"
  shows "serve_loop c reg iterator socket r = (res, socket', r')"
  using assms by (simp add: serve_loop.simps [of c reg iterator])

section \<open>Properties of the run\<close>

lemma serving_after_cycles:
  assumes "after_cycles k c reg iterator socket r = Some (iterator', socket', r')"
  shows "serving c run_logger reg iterator socket r =
           serving c run_logger reg iterator' socket' r'"
  using serve_loop_after_cycles [OF assms] by (simp add: serving_def)

lemma make_iterator_value:
  "die_after_iterator die_after = Inr iterator \<Longrightarrow> make_iterator die_after = iterator"
  by (simp add: make_iterator_def)

lemma loop_entered:
  assumes "after_cycles k c reg (make_iterator die_after) socket r = Some (iterator, socket', r')"
    and "0 < k \<or> iter_next iterator \<noteq> None"
  shows "die_after_iterator die_after = Inr (make_iterator die_after)"
proof (cases "die_after_iterator die_after")
  case (Inr iterator0)
  then show ?thesis by (simp add: make_iterator_def)
next
  case (Inl exc)
  then have "make_iterator die_after = Repeat 0" by (simp add: make_iterator_def)
  with assms(1) after_cycles_Repeat [of k c reg 0 socket r iterator socket' r']
  have "k = 0 \<and> iterator = Repeat 0" by simp
  with assms(2) show ?thesis by simp
qed

lemma run_attached:
  assumes "attach srv callback = Inr socket"
    and "die_after_iterator die_after = Inr (make_iterator die_after)"
    and "serving c run_logger (registry srv) (make_iterator die_after) socket r = (res, socket', r')"
  shows "run c run_logger srv die_after callback r = (res, Some socket', r')"
  using assms by (simp add: run_def)

lemma run_stopped:
  assumes att: "attach srv callback = Inr socket"
    and cyc: "after_cycles k c (registry srv) (make_iterator die_after) socket r =
                Some (iterator, socket', r')"
    and more: "iter_next iterator = Some iterator'"
    and stop: "cycle c (registry srv) socket' r' = Stop (Raised exc) socket'' r''"
  shows "run c run_logger srv die_after callback r =
           (if exc_kind exc = ZMQError zmq_ETERM \<or> exc_kind exc = KeyboardInterrupt then Returns
            else if run_logger exc then Returns else Raises exc,
            Some (sock_close socket''), r'')"
proof -
  from serve_loop_Stop [OF more stop]
  have "serve_loop c (registry srv) iterator socket' r' = (Raised exc, socket'', r'')" .
  from serving_Raised [OF this, of run_logger] serving_after_cycles [OF cyc, of run_logger]
  have served: "serving c run_logger (registry srv) (make_iterator die_after) socket r =
          (if exc_kind exc = ZMQError zmq_ETERM \<or> exc_kind exc = KeyboardInterrupt then Returns
           else if run_logger exc then Returns else Raises exc,
           sock_close socket'', r'')"
    by simp
  from more have "0 < k \<or> iter_next iterator \<noteq> None" by simp
  from run_attached [OF att loop_entered [OF cyc this] served] show ?thesis .
qed

lemmas run_eval = run_def attach_def sample_server_def scripted_socket_def serving_def
  make_iterator_def die_after_iterator_def py_repeat_def int64_def cycle_def sock_recv_def sock_send_def sock_close_def
  process_message_def get_response_def call_func_def encode_response_def capture_exception_def
  assemble_def dict_get_def request_def request_with_id_def sample_registry_def
  sample_handler_def is_Exception_def loopback_codec_def run_except_def lets_through_def
  suppresses_def Let_def

text \<open>
  C7, as the code has it. The socket is attached, \<open>k\<close> iterations have run to their end
  and the next one ends with an exception, from \<^verbatim>\<open>recv()\<close>, from \<^verbatim>\<open>send()\<close> or from
  the processing between them. When the exception is a \<^verbatim>\<open>ZMQError\<close> with
  \<^verbatim>\<open>errno == zmq.ETERM\<close> or a \<^verbatim>\<open>KeyboardInterrupt\<close>, \<open>run\<close> returns normally.
  Any other exception, so every other \<^verbatim>\<open>ZMQError\<close>, is re-raised out of the
  \<^verbatim>\<open>try\<close> statement; the socket is closed, and the exception then reaches the scope of
  \<^verbatim>\<open>run_logger.catch_exceptions()\<close>: it leaves \<open>run\<close> exactly when that scope does
  not suppress it.
\<close>

theorem run_ended_by_exception:
  assumes att: "attach srv callback = Inr socket"
    and cyc: "after_cycles k c (registry srv) (make_iterator die_after) socket r =
                Some (iterator, socket', r')"
    and more: "iter_next iterator = Some iterator'"
    and stop: "cycle c (registry srv) socket' r' = Stop (Raised exc) socket'' r''"
  shows "run c run_logger srv die_after callback r =
           (if exc_kind exc = ZMQError zmq_ETERM \<or> exc_kind exc = KeyboardInterrupt then Returns
            else if run_logger exc then Returns else Raises exc,
            Some (sock_close socket''), r'')"
  by (rule run_stopped [OF att cyc more stop])

theorem run_ended_by_exception_witness:
  "attach (sample_server [Message (request ''add'' [PInt 2, PInt 3]), RecvRaises context_terminated])
     lets_through =
     Inr ((scripted_socket
            [Message (request ''add'' [PInt 2, PInt 3]), RecvRaises context_terminated])
          \<lparr>endpoint := Some (False, ''tcp://127.0.0.1:7341'')\<rparr>)
   \<and> exc_kind context_terminated = ZMQError zmq_ETERM
   \<and> run loopback_codec lets_through
        (sample_server [Message (request ''add'' [PInt 2, PInt 3]), RecvRaises context_terminated])
        None lets_through 0 =
       (Returns,
        Some \<lparr>attach_fault = None, endpoint = Some (False, ''tcp://127.0.0.1:7341''),
              recv_script = [], send_script = [],
              sent = [[(''result'', PInt 5), (''error'', PNone)]], close_calls = 1\<rparr>,
        1)"
proof -
  let ?script = "[Message (request ''add'' [PInt 2, PInt 3]), RecvRaises context_terminated]"
  let ?s0 = "(scripted_socket ?script)\<lparr>endpoint := Some (False, ''tcp://127.0.0.1:7341'')\<rparr>"
  let ?s1 = "\<lparr>attach_fault = None, endpoint = Some (False, ''tcp://127.0.0.1:7341''),
              recv_script = [RecvRaises context_terminated], send_script = [],
              sent = [[(''result'', PInt 5), (''error'', PNone)]], close_calls = 0\<rparr>"
  let ?s2 = "\<lparr>attach_fault = None, endpoint = Some (False, ''tcp://127.0.0.1:7341''),
              recv_script = [], send_script = [],
              sent = [[(''result'', PInt 5), (''error'', PNone)]], close_calls = 0\<rparr>"
  have att: "attach (sample_server ?script) lets_through = Inr ?s0"
    by (simp add: attach_def sample_server_def scripted_socket_def)
  have cyc: "after_cycles (Suc 0) loopback_codec (registry (sample_server ?script))
               (make_iterator None) ?s0 0 = Some (RepeatForever, ?s1, 1)"
    by (simp add: run_eval)
  have more: "iter_next RepeatForever = Some RepeatForever" by simp
  have stop: "cycle loopback_codec (registry (sample_server ?script)) ?s1 1 =
                Stop (Raised context_terminated) ?s2 1"
    by (simp add: run_eval)
  have kind: "exc_kind context_terminated = ZMQError zmq_ETERM"
    by (simp add: context_terminated_def zmq_error_def)
  from run_ended_by_exception [OF att cyc more stop, of lets_through] kind
  have "run loopback_codec lets_through (sample_server ?script) None lets_through 0 =
          (Returns, Some (sock_close ?s2), 1)"
    by simp
  with att kind show ?thesis by (simp add: sock_close_def)
qed

text \<open>
  C7 as stated fails when the logger's scope suppresses what reaches it, which is what
  logbook's \<^verbatim>\<open>Logger.catch_exceptions()\<close> does: a \<^verbatim>\<open>ZMQError\<close> other than
  \<^verbatim>\<open>ETERM\<close> raised by \<^verbatim>\<open>recv()\<close> ends the loop and \<open>run\<close> returns normally.
\<close>

theorem transport_error_suppressed_counterexample:
  "exc_kind bad_state = ZMQError 156384763 \<and> (156384763 :: int) \<noteq> zmq_ETERM
   \<and> run loopback_codec suppresses (sample_server [RecvRaises bad_state]) None lets_through 0 =
       (Returns,
        Some \<lparr>attach_fault = None, endpoint = Some (False, ''tcp://127.0.0.1:7341''),
              recv_script = [], send_script = [], sent = [], close_calls = 1\<rparr>,
        0)"
  by (simp add: run_eval serve_loop.simps bad_state_def zmq_error_def zmq_ETERM_def)

text \<open>
  C9: the socket is attached, \<open>k\<close> iterations have run to their end and the next message
  received decodes to a request without \<^verbatim>\<open>method\<close> or without \<^verbatim>\<open>params\<close>. Then
  \<open>process_message\<close> raises a \<^verbatim>\<open>KeyError\<close> and returns no response; the exception is
  not handled by the \<^verbatim>\<open>except\<close> clauses, so the loop ends there: nothing is sent for
  that request, the messages still to come are never received, the socket is closed,
  and \<open>run\<close> is over (the exception leaves it unless the logger's scope suppresses it).
\<close>

theorem malformed_request_is_fatal:
  assumes att: "attach srv callback = Inr socket"
    and cyc: "after_cycles k c (registry srv) (make_iterator die_after) socket r =
                Some (iterator, socket', r')"
    and more: "iter_next iterator = Some iterator'"
    and recv: "recv_script socket' = Message w # rest"
    and dec: "decode c w = Inr message"
    and bad: "map_of message ''method'' = None \<or> map_of message ''params'' = None"
  shows "\<exists>exc.
           exc = KeyError (if map_of message ''method'' = None then ''method'' else ''params'')
           \<and> process_message c (registry srv) message r' = (Inl exc, r')
           \<and> run c run_logger srv die_after callback r =
               (if run_logger exc then Returns else Raises exc,
                Some (sock_close (socket'\<lparr>recv_script := rest\<rparr>)), r')
           \<and> sent (sock_close (socket'\<lparr>recv_script := rest\<rparr>)) = sent socket'"
proof -
  let ?exc = "KeyError (if map_of message ''method'' = None then ''method'' else ''params'')"
  from bad have pm: "process_message c (registry srv) message r' = (Inl ?exc, r')"
    by (auto simp: process_message_def split: option.splits)
  from recv dec pm
  have stop: "cycle c (registry srv) socket' r' =
                Stop (Raised ?exc) (socket'\<lparr>recv_script := rest\<rparr>) r'"
    by (simp add: cycle_def sock_recv_def)
  have kind: "exc_kind ?exc = OtherException" by (simp add: KeyError_def)
  from run_stopped [OF att cyc more stop, of run_logger] kind
  have "run c run_logger srv die_after callback r =
               (if run_logger ?exc then Returns else Raises ?exc,
                Some (sock_close (socket'\<lparr>recv_script := rest\<rparr>)), r')"
    by simp
  with pm show ?thesis by (simp add: sock_close_def)
qed

theorem malformed_request_is_fatal_witness:
  "attach (sample_server [Message [(''id'', PInt 7), (''params'', PList [])],
                          Message (request ''add'' [PInt 2, PInt 3])]) lets_through =
     Inr ((scripted_socket [Message [(''id'', PInt 7), (''params'', PList [])],
                            Message (request ''add'' [PInt 2, PInt 3])])
          \<lparr>endpoint := Some (False, ''tcp://127.0.0.1:7341'')\<rparr>)
   \<and> decode loopback_codec [(''id'', PInt 7), (''params'', PList [])] =
       Inr [(''id'', PInt 7), (''params'', PList [])]
   \<and> map_of [(''id'', PInt 7), (''params'', PList [])] ''method'' = None
   \<and> process_message loopback_codec sample_registry [(''id'', PInt 7), (''params'', PList [])] 0 =
       (Inl (KeyError ''method''), 0)
   \<and> run loopback_codec lets_through
        (sample_server [Message [(''id'', PInt 7), (''params'', PList [])],
                        Message (request ''add'' [PInt 2, PInt 3])])
        None lets_through 0 =
       (Raises (KeyError ''method''),
        Some \<lparr>attach_fault = None, endpoint = Some (False, ''tcp://127.0.0.1:7341''),
              recv_script = [Message (request ''add'' [PInt 2, PInt 3])], send_script = [],
              sent = [], close_calls = 1\<rparr>,
        0)"
proof -
  let ?bad = "[(''id'', PInt 7), (''params'', PList [])]"
  let ?script = "[Message ?bad, Message (request ''add'' [PInt 2, PInt 3])]"
  let ?s0 = "(scripted_socket ?script)\<lparr>endpoint := Some (False, ''tcp://127.0.0.1:7341'')\<rparr>"
  have att: "attach (sample_server ?script) lets_through = Inr ?s0"
    by (simp add: attach_def sample_server_def scripted_socket_def)
  have cyc: "after_cycles 0 loopback_codec (registry (sample_server ?script))
               (make_iterator None) ?s0 0 = Some (RepeatForever, ?s0, 0)"
    by (simp add: make_iterator_def die_after_iterator_def)
  have more: "iter_next RepeatForever = Some RepeatForever" by simp
  have recv: "recv_script ?s0 = Message ?bad # [Message (request ''add'' [PInt 2, PInt 3])]"
    by (simp add: scripted_socket_def)
  have dec: "decode loopback_codec ?bad = Inr ?bad" by (simp add: loopback_codec_def)
  have bad: "map_of ?bad ''method'' = None \<or> map_of ?bad ''params'' = None" by simp
  have reg: "registry (sample_server ?script) = sample_registry"
    by (simp add: sample_server_def)
  from malformed_request_is_fatal [OF att cyc more recv dec bad, of lets_through]
  have "process_message loopback_codec sample_registry ?bad 0 = (Inl (KeyError ''method''), 0)
        \<and> run loopback_codec lets_through (sample_server ?script) None lets_through 0 =
            (Raises (KeyError ''method''),
             Some (sock_close (?s0\<lparr>recv_script := [Message (request ''add'' [PInt 2, PInt 3])]\<rparr>)),
             0)"
    unfolding reg by (simp add: lets_through_def)
  with att dec show ?thesis by (simp add: sock_close_def scripted_socket_def)
qed

text \<open>
  C2 at \<^verbatim>\<open>die_after = 0\<close>: \<^verbatim>\<open>0\<close> is false, so the iterator is \<^verbatim>\<open>repeat(None)\<close> and
  the loop is unbounded. With one request waiting, \<open>run\<close> serves it, then blocks in
  \<^verbatim>\<open>recv()\<close>: it has performed a cycle, it does not return and the socket is not closed.
\<close>

theorem die_after_zero_serves_on:
  "make_iterator (Some 0) = RepeatForever
   \<and> run loopback_codec lets_through
        (sample_server [Message (request ''add'' [PInt 2, PInt 3])]) (Some 0) lets_through 0 =
       (Hangs,
        Some \<lparr>attach_fault = None, endpoint = Some (False, ''tcp://127.0.0.1:7341''),
              recv_script = [], send_script = [],
              sent = [[(''result'', PInt 5), (''error'', PNone)]], close_calls = 0\<rparr>,
        1)"
  by (simp add: run_eval serve_loop.simps)

text \<open>
  For a positive \<^verbatim>\<open>die_after = n\<close> the loop is bounded: when the first \<open>n\<close> iterations
  run to their end, \<open>run\<close> returns after exactly these \<open>n\<close> cycles, \<open>n\<close> messages
  received and \<open>n\<close> responses sent, and the socket is closed once.
\<close>

theorem run_dies_after_n_cycles:
  assumes att: "attach srv callback = Inr socket" and pos: "0 < n"
    and cyc: "after_cycles n c (registry srv) (make_iterator (Some (int n))) socket r =
                Some (iterator, socket', r')"
  shows "run c run_logger srv (Some (int n)) callback r = (Returns, Some (sock_close socket'), r')
         \<and> length (sent (sock_close socket')) = length (sent socket) + n
         \<and> length (recv_script (sock_close socket')) + n = length (recv_script socket)
         \<and> close_calls (sock_close socket') = Suc (close_calls socket)"
proof -
  from pos have built: "die_after_iterator (Some (int n)) = Inr (make_iterator (Some (int n)))"
    by (intro loop_entered [OF cyc]) simp
  from pos have "die_after_iterator (Some (int n)) = py_repeat (int n)"
    by (simp add: die_after_iterator_def)
  with built have it: "make_iterator (Some (int n)) = Repeat n"
    by (cases "int64 (int n)") (simp_all add: py_repeat_def make_iterator_def)
  from after_cycles_Repeat [OF cyc [unfolded it]] have "iterator = Repeat 0" by simp
  then have "serve_loop c (registry srv) iterator socket' r' = (Completed, socket', r')"
    by (simp add: serve_loop.simps [of c "registry srv" "Repeat 0"])
  with serve_loop_after_cycles [OF cyc]
  have "serving c run_logger (registry srv) (make_iterator (Some (int n))) socket r =
          (Returns, sock_close socket', r')"
    by (simp add: serving_def)
  from run_attached [OF att built this] after_cycles_counts [OF cyc] show ?thesis
    by (simp add: sock_close_def)
qed

theorem run_dies_after_n_cycles_witness:
  "attach (sample_server [Message (request ''add'' [PInt 2, PInt 3]),
                          Message (request ''fail'' []),
                          Message (request ''add'' [PInt 1, PInt 1])]) lets_through =
     Inr ((scripted_socket [Message (request ''add'' [PInt 2, PInt 3]),
                            Message (request ''fail'' []),
                            Message (request ''add'' [PInt 1, PInt 1])])
          \<lparr>endpoint := Some (False, ''tcp://127.0.0.1:7341'')\<rparr>)
   \<and> (0::nat) < 2
   \<and> run loopback_codec lets_through
        (sample_server [Message (request ''add'' [PInt 2, PInt 3]),
                        Message (request ''fail'' []),
                        Message (request ''add'' [PInt 1, PInt 1])])
        (Some 2) lets_through 0 =
       (Returns,
        Some \<lparr>attach_fault = None, endpoint = Some (False, ''tcp://127.0.0.1:7341''),
              recv_script = [Message (request ''add'' [PInt 1, PInt 1])], send_script = [],
              sent = [[(''result'', PInt 5), (''error'', PNone)],
                      [(''result'', PNone),
                       (''error'', PDict [(''type'', PStr ''exceptions.ValueError''),
                          (''message'', PStr ''ValueError: boom''),
                          (''args'', PList [PStr ''boom''])])]],
              close_calls = 1\<rparr>,
        2)"
proof -
  let ?script = "[Message (request ''add'' [PInt 2, PInt 3]), Message (request ''fail'' []),
                  Message (request ''add'' [PInt 1, PInt 1])]"
  let ?s0 = "(scripted_socket ?script)\<lparr>endpoint := Some (False, ''tcp://127.0.0.1:7341'')\<rparr>"
  let ?s2 = "\<lparr>attach_fault = None, endpoint = Some (False, ''tcp://127.0.0.1:7341''),
              recv_script = [Message (request ''add'' [PInt 1, PInt 1])], send_script = [],
              sent = [[(''result'', PInt 5), (''error'', PNone)],
                      [(''result'', PNone),
                       (''error'', PDict [(''type'', PStr ''exceptions.ValueError''),
                          (''message'', PStr ''ValueError: boom''),
                          (''args'', PList [PStr ''boom''])])]],
              close_calls = 0\<rparr>"
  have att: "attach (sample_server ?script) lets_through = Inr ?s0"
    by (simp add: attach_def sample_server_def scripted_socket_def)
  have pos: "(0::nat) < 2" by simp
  have cyc: "after_cycles 2 loopback_codec (registry (sample_server ?script))
               (make_iterator (Some (int 2))) ?s0 0 = Some (Repeat 0, ?s2, 2)"
    by (simp add: run_eval numeral_2_eq_2 boom_def format_exception_only_def strip_def
        py_isspace_def)
  from run_dies_after_n_cycles [OF att pos cyc, of lets_through]
  have "run loopback_codec lets_through (sample_server ?script) (Some 2) lets_through 0 =
          (Returns, Some (sock_close ?s2), 2)"
    by simp
  with att show ?thesis by (simp add: sock_close_def)
qed

lemma attach_close_calls:
  "case ctx_socket srv of
     Inl exc \<Rightarrow> (\<exists>e. attach srv callback = Inl (e, None))
   | Inr socket \<Rightarrow>
       (\<exists>e. attach srv callback = Inl (e, Some socket))
       \<or> (\<exists>socket1. attach srv callback = Inr socket1
             \<and> close_calls socket1 = close_calls socket)"
  by (simp add: attach_def split: sum.splits option.splits)

lemma serving_close_calls:
  assumes "serving c run_logger reg iterator socket r = (res, socket', r')"
  shows "close_calls socket' =
           (if res = Hangs then close_calls socket else Suc (close_calls socket))"
proof -
  obtain lres s1 r1
    where loop: "serve_loop c reg iterator socket r = (lres, s1, r1)"
    by (cases "serve_loop c reg iterator socket r") auto
  from serve_loop_close_calls [OF loop] have same: "close_calls s1 = close_calls socket" .
  show ?thesis
  proof (cases lres)
    case Completed
    with loop assms same show ?thesis by (auto simp: serving_def sock_close_def)
  next
    case Blocked
    with loop assms same show ?thesis by (auto simp: serving_def)
  next
    case (Raised exc)
    with loop assms same show ?thesis
      by (cases "run_except exc") (auto simp: serving_def sock_close_def split: if_splits)
  qed
qed

text \<open>
  C8, as the code has it, on every path of \<open>run\<close>. The socket is closed by the
  \<^verbatim>\<open>with\<close> statement and by nothing else. When \<open>run\<close> reaches the \<^verbatim>\<open>with\<close>
  statement and leaves it, by returning or by raising, whatever ended the loop, the
  socket has been closed exactly once more than when it was created; when \<^verbatim>\<open>recv()\<close>
  blocks forever \<open>run\<close> never finishes and the socket has not been closed. When \<open>run\<close>
  does not reach the \<^verbatim>\<open>with\<close> statement it raises, and the socket, if one was
  created, has not been closed.
\<close>

theorem socket_closed_once_by_the_with_statement:
  "\<exists>res left r'.
     run c run_logger srv die_after callback r = (res, left, r')
     \<and> (case ctx_socket srv of
          Inl exc \<Rightarrow> left = None
        | Inr socket \<Rightarrow>
            (\<exists>socket'. left = Some socket'
               \<and> close_calls socket' =
                   (if reaches_with srv callback die_after \<and> res \<noteq> Hangs
                    then Suc (close_calls socket) else close_calls socket)))
     \<and> (reaches_with srv callback die_after \<or> (\<exists>exc. res = Raises exc \<and> r' = r))"
proof (cases "ctx_socket srv")
  case (Inl exc)
  with attach_close_calls [of srv callback] obtain e
    where "attach srv callback = Inl (e, None)" by auto
  with Inl show ?thesis by (simp add: run_def reaches_with_def)
next
  case (Inr socket)
  with attach_close_calls [of srv callback]
  have "(\<exists>e. attach srv callback = Inl (e, Some socket))
       \<or> (\<exists>socket1. attach srv callback = Inr socket1
             \<and> close_calls socket1 = close_calls socket)" by simp
  then show ?thesis
  proof
    assume "\<exists>e. attach srv callback = Inl (e, Some socket)"
    then obtain e where "attach srv callback = Inl (e, Some socket)" by blast
    with Inr show ?thesis by (simp add: run_def reaches_with_def)
  next
    assume "\<exists>socket1. attach srv callback = Inr socket1
             \<and> close_calls socket1 = close_calls socket"
    then obtain socket1 where att: "attach srv callback = Inr socket1"
      and same: "close_calls socket1 = close_calls socket" by blast
    show ?thesis
    proof (cases "die_after_iterator die_after")
      case (Inl exc)
      with Inr att same show ?thesis by (simp add: run_def reaches_with_def)
    next
      case iter: (Inr iterator)
      obtain res socket' r'
        where sv: "serving c run_logger (registry srv) iterator socket1 r = (res, socket', r')"
        by (cases "serving c run_logger (registry srv) iterator socket1 r") auto
      from serving_close_calls [OF sv] same
      have "close_calls socket' =
              (if res = Hangs then close_calls socket else Suc (close_calls socket))"
        by simp
      with Inr att iter sv show ?thesis by (simp add: run_def reaches_with_def)
    qed
  qed
qed

theorem socket_closed_once_by_the_with_statement_witness:
  "reaches_with (sample_server [Message (request ''add'' [PInt 2, PInt 3])]) lets_through (Some 1)
   \<and> (\<exists>socket' r'.
         run loopback_codec lets_through
           (sample_server [Message (request ''add'' [PInt 2, PInt 3])]) (Some 1) lets_through 0 =
           (Returns, Some socket', r')
         \<and> close_calls socket' = 1)
   \<and> reaches_with (sample_server [RecvRaises bad_state]) lets_through None
   \<and> (\<exists>socket' r'.
         run loopback_codec lets_through (sample_server [RecvRaises bad_state]) None
           lets_through 0 = (Raises bad_state, Some socket', r')
         \<and> close_calls socket' = 1)
   \<and> reaches_with (sample_server [RecvRaises context_terminated]) lets_through None
   \<and> (\<exists>socket' r'.
         run loopback_codec lets_through (sample_server [RecvRaises context_terminated]) None
           lets_through 0 = (Returns, Some socket', r')
         \<and> close_calls socket' = 1)"
proof -
  let ?script = "[Message (request ''add'' [PInt 2, PInt 3])]"
  have ctx: "ctx_socket (sample_server script) = Inr (scripted_socket script)"
    "close_calls (scripted_socket script :: document socket) = 0" for script
    by (simp_all add: sample_server_def scripted_socket_def)
  have reach: "reaches_with (sample_server ?script) lets_through (Some 1)"
    "reaches_with (sample_server [RecvRaises bad_state]) lets_through None"
    "reaches_with (sample_server [RecvRaises context_terminated]) lets_through None"
    by (simp_all add: reaches_with_def attach_def die_after_iterator_def py_repeat_def int64_def
        sample_server_def scripted_socket_def)
  have res: "fst (run loopback_codec lets_through (sample_server ?script) (Some 1)
                    lets_through 0) = Returns"
    by (simp add: run_eval serve_loop.simps)
  have res2: "fst (run loopback_codec lets_through (sample_server [RecvRaises bad_state]) None
                     lets_through 0) = Raises bad_state"
    by (simp add: run_eval serve_loop.simps bad_state_def zmq_error_def zmq_ETERM_def)
  have res3: "fst (run loopback_codec lets_through
                     (sample_server [RecvRaises context_terminated]) None
                     lets_through 0) = Returns"
    by (simp add: run_eval serve_loop.simps context_terminated_def zmq_error_def)
  from socket_closed_once_by_the_with_statement
         [of loopback_codec lets_through "sample_server ?script" "Some 1" lets_through 0]
       res reach(1) ctx [of ?script]
  have normal: "\<exists>socket' r'.
      run loopback_codec lets_through (sample_server ?script) (Some 1) lets_through 0 =
        (Returns, Some socket', r') \<and> close_calls socket' = 1"
    by auto
  from socket_closed_once_by_the_with_statement
         [of loopback_codec lets_through "sample_server [RecvRaises bad_state]" None
             lets_through 0]
       res2 reach(2) ctx [of "[RecvRaises bad_state]"]
  have fatal: "\<exists>socket' r'.
      run loopback_codec lets_through (sample_server [RecvRaises bad_state]) None
        lets_through 0 = (Raises bad_state, Some socket', r') \<and> close_calls socket' = 1"
    by auto
  from socket_closed_once_by_the_with_statement
         [of loopback_codec lets_through "sample_server [RecvRaises context_terminated]" None
             lets_through 0]
       res3 reach(3) ctx [of "[RecvRaises context_terminated]"]
  have signaled: "\<exists>socket' r'.
      run loopback_codec lets_through (sample_server [RecvRaises context_terminated]) None
        lets_through 0 = (Returns, Some socket', r') \<and> close_calls socket' = 1"
    by auto
  from reach normal fatal signaled show ?thesis by blast
qed

text \<open>
  C8 as stated fails on the paths that end before the \<^verbatim>\<open>with\<close> statement. A
  \<^verbatim>\<open>bind\<close> to an address in use raises \<^verbatim>\<open>ZMQError\<close>; when the scope of the callback
  lets it through, \<open>run\<close> raises it and the socket it created is left open. And
  \<^verbatim>\<open>die_after = 2**63\<close> makes \<^verbatim>\<open>repeat(None, die_after)\<close> raise \<^verbatim>\<open>OverflowError\<close>
  after the socket was bound: \<open>run\<close> raises it and the socket is left open.
\<close>

theorem socket_left_open_counterexample:
  "run int64_codec lets_through
       (server_on ((scripted_socket [])\<lparr>attach_fault := Some address_in_use\<rparr>))
       None lets_through 0 =
     (Raises address_in_use,
      Some \<lparr>attach_fault = Some address_in_use, endpoint = None, recv_script = [],
            send_script = [], sent = [], close_calls = 0\<rparr>,
      0)
   \<and> run int64_codec lets_through (server_on (scripted_socket [])) (Some (2 ^ 63))
       lets_through 0 =
     (Raises (OverflowError ''Python int too large to convert to C ssize_t''),
      Some \<lparr>attach_fault = None, endpoint = Some (False, ''tcp://127.0.0.1:7341''),
            recv_script = [], send_script = [], sent = [], close_calls = 0\<rparr>,
      0)"
  by (simp add: run_def attach_def die_after_iterator_def py_repeat_def int64_def
      server_on_def scripted_socket_def lets_through_def)

lemma cycle_sends:
  assumes recv: "recv_script socket = Message w # rest"
    and dec: "decode c w = Inr message"
    and pm: "process_message c reg message r = (Inr resp, r')"
    and sends: "sends_succeed (Suc n) socket"
  shows "\<exists>socket'. cycle c reg socket r = Next socket' r'
           \<and> recv_script socket' = rest \<and> sent socket' = sent socket @ [resp]
           \<and> sends_succeed n socket'"
proof -
  let ?s1 = "socket\<lparr>recv_script := rest\<rparr>"
  from sends have "sends_succeed (Suc n) ?s1" by (simp add: sends_succeed_def)
  from sock_send_succeeds [OF this, of resp] recv dec pm show ?thesis
    by (simp add: cycle_def sock_recv_def)
qed

lemma get_response_first_encode:
  assumes c: "bson_behaviour c"
    and mid: "message_id = PNone \<or> encodes c [(''id'', message_id)]"
    and cf: "call_func c func args r = (Inr (result, error), r')"
    and res: "encodes c [(''result'', result)]"
    and err: "encodes c [(''error'', error)]"
  shows "\<exists>w. get_response c message_id func args r = (Inr w, r')
           \<and> decode c w = Inr (assemble message_id result error)"
proof -
  from mid res err have "encodes c (assemble message_id result error)"
    by (simp only: encodes_assemble [OF c])
  then obtain w where w: "encode c (assemble message_id result error) = Inr w"
    by (auto simp: encodes_Inr)
  with cf have "get_response c message_id func args r = (Inr w, r')"
    by (simp add: get_response_def encode_response_def)
  with behaviour_decode [OF c w] show ?thesis by simp
qed

text \<open>
  The fallback, where the code has it. A request decoded from the wire has been
  dispatched and the first encode of the assembled response raises
  \<^verbatim>\<open>InvalidDocument\<close>. Then \<open>get_response\<close> returns the bytes of the second encode:
  the document they carry has \<^verbatim>\<open>result\<close> null and, as \<^verbatim>\<open>error\<close>, the record captured
  from the exception of the first encode, with the \<^verbatim>\<open>id\<close> as before; and the iteration
  of the loop that received the request sends these bytes.
\<close>

lemma get_response_fallback:
  assumes c: "bson_behaviour c"
    and recv: "recv_script socket = Message request_bytes # rest"
    and sends: "sends_succeed (Suc n) socket"
    and wire: "decode c request_bytes = Inr message"
    and meth: "map_of message ''method'' = Some meth"
    and params: "map_of message ''params'' = Some params"
    and ps: "unpack params = Inr ps"
    and cf: "call_func c reg (meth # ps) r = (Inr (result, error), r')"
    and fails: "encode c (assemble (dict_get message ''id'' PNone) result error) = Inl exc"
    and kind: "exc_kind exc = InvalidDocument"
  shows "\<exists>w response fields socket'.
           get_response c (dict_get message ''id'' PNone) reg (meth # ps) r = (Inr w, r')
           \<and> decode c w = Inr response
           \<and> map_of response ''result'' = Some PNone
           \<and> map_of response ''error'' = Some (PDict fields)
           \<and> capture_exception c exc = Inr (PDict fields)
           \<and> map_of fields ''type'' = Some (PStr (exc_module exc @ ''.'' @ exc_name exc))
           \<and> map_of fields ''message'' =
               Some (PStr (strip (last (format_exception_only exc))))
           \<and> map_of response ''id'' =
               (if dict_get message ''id'' PNone = PNone then None
                else Some (dict_get message ''id'' PNone))
           \<and> cycle c reg socket r = Next socket' r'
           \<and> sent socket' = sent socket @ [w]"
proof -
  let ?id = "dict_get message ''id'' PNone"
  from encode_response_fallback [OF c behaviour_decoded_id [OF c wire] fails kind]
  obtain error' w
    where cap: "capture_exception c exc = Inr error'"
      and er: "encode_response c (assemble ?id result error) = Inr w"
      and dec: "decode c w = Inr (AList.update ''result'' PNone
                (AList.update ''error'' error' (assemble ?id result error)))"
    by blast
  from capture_exception_type_message [OF cap] obtain fields
    where rec: "error' = PDict fields"
      "map_of fields ''type'' = Some (PStr (exc_module exc @ ''.'' @ exc_name exc))"
      "map_of fields ''message'' = Some (PStr (strip (last (format_exception_only exc))))"
    by blast
  from cf er have gr: "get_response c ?id reg (meth # ps) r = (Inr w, r')"
    by (simp add: get_response_def)
  with process_message_wellformed [OF meth params ps, of c reg r]
  have pm: "process_message c reg message r = (Inr w, r')" by simp
  from cycle_sends [OF recv wire pm sends] obtain socket'
    where cyc: "cycle c reg socket r = Next socket' r'" "sent socket' = sent socket @ [w]"
    by blast
  have "map_of (AList.update ''result'' PNone
          (AList.update ''error'' error' (assemble ?id result error))) ''id'' =
        (if ?id = PNone then None else Some ?id)"
    by (rule map_of_fallback)
  with gr dec cap rec cyc show ?thesis by (simp add: map_of_fallback)
qed

text \<open>
  C5 fails when the first encode raises another exception than \<^verbatim>\<open>InvalidDocument\<close>.
  The method \<^verbatim>\<open>big\<close> returns \<^verbatim>\<open>2**63\<close>, which the encoder refuses with
  \<^verbatim>\<open>OverflowError\<close>. The handler of the first encode does not catch it: there is no
  second encode, \<open>get_response\<close> raises, the iteration that received the request ends
  the loop, and \<open>run\<close> ends without having sent a response.
\<close>

theorem first_encode_overflow_is_not_recovered:
  "wide_registry [PStr ''big''] 0 = (Return (PInt (2 ^ 63)), 1)
   \<and> encode int64_codec (assemble (PInt 7) (PInt (2 ^ 63)) PNone) = Inl overflow_error
   \<and> get_response int64_codec (PInt 7) wide_registry [PStr ''big''] 0 = (Inl overflow_error, 1)
   \<and> cycle int64_codec wide_registry
         (scripted_socket [Message (request_with_id (PInt 7) ''big'' [])]) 0 =
       Stop (Raised overflow_error) (scripted_socket []) 1
   \<and> run int64_codec lets_through
         (server_on (scripted_socket [Message (request_with_id (PInt 7) ''big'' [])]))
         None lets_through 0 =
       (Raises overflow_error,
        Some \<lparr>attach_fault = None, endpoint = Some (False, ''tcp://127.0.0.1:7341''),
              recv_script = [], send_script = [], sent = [], close_calls = 1\<rparr>,
        1)"
proof -
  have call: "wide_registry [PStr ''big''] 0 = (Return (PInt (2 ^ 63)), 1)"
    by (simp add: wide_registry_def wide_handler_def)
  have enc: "encode int64_codec (assemble (PInt 7) (PInt (2 ^ 63)) PNone) = Inl overflow_error"
    by (simp add: int64_codec_def assemble_def int64_def Let_def)
  have kind: "exc_kind overflow_error \<noteq> InvalidDocument"
    by (simp add: overflow_error_def OverflowError_def)
  from call enc kind
  have gr: "get_response int64_codec (PInt 7) wide_registry [PStr ''big''] 0 =
      (Inl overflow_error, 1)"
    by (simp add: get_response_def call_func_def encode_response_def)
  have dec: "decode int64_codec (request_with_id (PInt 7) ''big'' []) =
      Inr (request_with_id (PInt 7) ''big'' [])"
    by (simp add: int64_codec_def request_with_id_def int64_def)
  from gr have pm: "process_message int64_codec wide_registry
      (request_with_id (PInt 7) ''big'' []) 0 = (Inl overflow_error, 1)"
    by (simp add: process_message_def request_with_id_def dict_get_def)
  from dec pm
  have cyc: "cycle int64_codec wide_registry
         (scripted_socket [Message (request_with_id (PInt 7) ''big'' [])]) 0 =
       Stop (Raised overflow_error) (scripted_socket []) 1"
    by (simp add: cycle_def sock_recv_def scripted_socket_def)
  have exc: "run_except overflow_error = Some overflow_error"
    by (simp add: run_except_def overflow_error_def OverflowError_def)
  have att: "attach (server_on (scripted_socket [Message (request_with_id (PInt 7) ''big'' [])]))
               lets_through =
             Inr ((scripted_socket [Message (request_with_id (PInt 7) ''big'' [])])
                    \<lparr>endpoint := Some (False, ''tcp://127.0.0.1:7341'')\<rparr>)"
    by (simp add: attach_def server_on_def scripted_socket_def)
  have cyc': "cycle int64_codec wide_registry
         ((scripted_socket [Message (request_with_id (PInt 7) ''big'' [])])
            \<lparr>endpoint := Some (False, ''tcp://127.0.0.1:7341'')\<rparr>) 0 =
       Stop (Raised overflow_error)
         ((scripted_socket [])\<lparr>endpoint := Some (False, ''tcp://127.0.0.1:7341'')\<rparr>) 1"
    using dec pm by (simp add: cycle_def sock_recv_def scripted_socket_def)
  have "run int64_codec lets_through
         (server_on (scripted_socket [Message (request_with_id (PInt 7) ''big'' [])]))
         None lets_through 0 =
       (Raises overflow_error,
        Some \<lparr>attach_fault = None, endpoint = Some (False, ''tcp://127.0.0.1:7341''),
              recv_script = [], send_script = [], sent = [], close_calls = 1\<rparr>,
        1)"
    using att cyc' exc
    by (simp add: run_def die_after_iterator_def serving_def serve_loop.simps sock_close_def
        server_on_def lets_through_def scripted_socket_def)
  with call enc gr cyc show ?thesis by simp
qed

text \<open>
  C6, as the code has it, for an encoder that behaves as \<open>bson_behaviour\<close> says. Two
  requests decoded from the wire arrive one after the other. The call of the first
  raises an exception derived from \<^verbatim>\<open>Exception\<close>, with an ASCII type name and
  message, on whose \<^verbatim>\<open>args\<close> the probe returns or raises \<^verbatim>\<open>InvalidDocument\<close>:
  \<open>get_response\<close> returns a response with \<^verbatim>\<open>result\<close> null and the captured record as
  \<^verbatim>\<open>error\<close>, and the response is sent. The loop goes on: the second request, whose
  call returns a value the encoder can encode, gets the response with that \<^verbatim>\<open>result\<close>
  and a null \<^verbatim>\<open>error\<close>, and the loop continues from the state after both cycles.
\<close>

theorem dispatch_failure_does_not_end_the_loop:
  assumes c: "bson_behaviour c"
    and recv: "recv_script socket = Message w1 # Message w2 # rest"
    and sends: "sends_succeed 2 socket"
    and it1: "iter_next iterator = Some iterator1"
    and it2: "iter_next iterator1 = Some iterator2"
    and d1: "decode c w1 = Inr m1"
    and meth1: "map_of m1 ''method'' = Some meth1"
    and params1: "map_of m1 ''params'' = Some params1"
    and ps1: "unpack params1 = Inr ps1"
    and fails: "reg (meth1 # ps1) r = (Raise exc, r1)"
    and caught: "is_Exception exc"
    and strs: "ascii_exc exc"
    and probe: "probe_settles c exc"
    and d2: "decode c w2 = Inr m2"
    and meth2: "map_of m2 ''method'' = Some meth2"
    and params2: "map_of m2 ''params'' = Some params2"
    and ps2: "unpack params2 = Inr ps2"
    and returns: "reg (meth2 # ps2) r1 = (Return v, r2)"
    and v: "encodes c [(''result'', v)]"
  shows "\<exists>error resp1 resp2 socket2.
           capture_exception c exc = Inr error
           \<and> get_response c (dict_get m1 ''id'' PNone) reg (meth1 # ps1) r = (Inr resp1, r1)
           \<and> decode c resp1 = Inr (assemble (dict_get m1 ''id'' PNone) PNone error)
           \<and> decode c resp2 = Inr (assemble (dict_get m2 ''id'' PNone) v PNone)
           \<and> after_cycles 2 c reg iterator socket r = Some (iterator2, socket2, r2)
           \<and> sent socket2 = sent socket @ [resp1, resp2]
           \<and> recv_script socket2 = rest
           \<and> serve_loop c reg iterator socket r = serve_loop c reg iterator2 socket2 r2"
proof -
  have none: "encodes c [(''result'', PNone)]" "encodes c [(''error'', PNone)]"
    by (simp_all add: behaviour_none [OF c] keys_are_ascii_text)
  from capture_exception_settled [OF c strs probe] obtain error
    where cap: "capture_exception c exc = Inr error" and err: "encodes c [(''error'', error)]"
    by blast
  from fails caught cap
  have cf1: "call_func c reg (meth1 # ps1) r = (Inr (PNone, error), r1)"
    by (simp add: call_func_def)
  from get_response_first_encode [OF c behaviour_decoded_id [OF c d1] cf1 none(1) err]
  obtain resp1
    where gr1: "get_response c (dict_get m1 ''id'' PNone) reg (meth1 # ps1) r = (Inr resp1, r1)"
      and dr1: "decode c resp1 = Inr (assemble (dict_get m1 ''id'' PNone) PNone error)"
    by auto
  from gr1 process_message_wellformed [OF meth1 params1 ps1, of c reg r]
  have pm1: "process_message c reg m1 r = (Inr resp1, r1)" by simp
  from sends have sends': "sends_succeed (Suc (Suc 0)) socket" by (simp add: numeral_2_eq_2)
  from cycle_sends [OF recv d1 pm1 sends'] obtain socket1
    where c1: "cycle c reg socket r = Next socket1 r1"
      and recv1: "recv_script socket1 = Message w2 # rest"
      and sent1: "sent socket1 = sent socket @ [resp1]"
      and sends1: "sends_succeed (Suc 0) socket1"
    by blast
  from returns have cf2: "call_func c reg (meth2 # ps2) r1 = (Inr (v, PNone), r2)"
    by (simp add: call_func_def)
  from get_response_first_encode [OF c behaviour_decoded_id [OF c d2] cf2 v none(2)]
  obtain resp2
    where gr2: "get_response c (dict_get m2 ''id'' PNone) reg (meth2 # ps2) r1 = (Inr resp2, r2)"
      and dr2: "decode c resp2 = Inr (assemble (dict_get m2 ''id'' PNone) v PNone)"
    by auto
  from gr2 process_message_wellformed [OF meth2 params2 ps2, of c reg r1]
  have pm2: "process_message c reg m2 r1 = (Inr resp2, r2)" by simp
  from cycle_sends [OF recv1 d2 pm2 sends1] obtain socket2
    where c2: "cycle c reg socket1 r1 = Next socket2 r2"
      and recv2: "recv_script socket2 = rest"
      and sent2: "sent socket2 = sent socket1 @ [resp2]"
    by blast
  from it1 it2 c1 c2
  have ac: "after_cycles 2 c reg iterator socket r = Some (iterator2, socket2, r2)"
    by (simp add: numeral_2_eq_2)
  from serve_loop_after_cycles [OF ac]
  have "serve_loop c reg iterator socket r = serve_loop c reg iterator2 socket2 r2" .
  with cap gr1 dr1 dr2 ac sent1 sent2 recv2 show ?thesis by auto
qed

theorem dispatch_failure_does_not_end_the_loop_witness:
  "bson_behaviour int64_codec
   \<and> sends_succeed 2 (scripted_socket
        [Message (request ''fail'' []), Message (request_with_id (PInt 7) ''add'' [PInt 2, PInt 3])])
   \<and> sample_registry [PStr ''fail''] 0 = (Raise boom, 1) \<and> is_Exception boom
   \<and> ascii_exc boom \<and> probe_settles int64_codec boom
   \<and> sample_registry [PStr ''add'', PInt 2, PInt 3] 1 = (Return (PInt 5), 2)
   \<and> encodes int64_codec [(''result'', PInt 5)]
   \<and> (\<exists>socket2.
         after_cycles 2 int64_codec sample_registry RepeatForever
           (scripted_socket [Message (request ''fail'' []),
              Message (request_with_id (PInt 7) ''add'' [PInt 2, PInt 3])]) 0 =
           Some (RepeatForever, socket2, 2)
         \<and> sent socket2 =
             [[(''result'', PNone),
               (''error'', PDict [(''type'', PStr ''exceptions.ValueError''),
                  (''message'', PStr ''ValueError: boom''), (''args'', PList [PStr ''boom''])])],
              [(''result'', PInt 5), (''error'', PNone), (''id'', PInt 7)]]
         \<and> recv_script socket2 = [])"
proof -
  let ?m1 = "request ''fail'' []"
  let ?m2 = "request_with_id (PInt 7) ''add'' [PInt 2, PInt 3]"
  let ?s = "scripted_socket [Message ?m1, Message ?m2] :: document socket"
  have recv: "recv_script ?s = Message ?m1 # Message ?m2 # []"
    by (simp add: scripted_socket_def)
  have sends: "sends_succeed 2 ?s" by (simp add: sends_succeed_def scripted_socket_def)
  have it: "iter_next RepeatForever = Some RepeatForever" by simp
  have d1: "decode int64_codec ?m1 = Inr ?m1" by (simp add: int64_codec_def request_def)
  have d2: "decode int64_codec ?m2 = Inr ?m2"
    by (simp add: int64_codec_def request_with_id_def int64_def)
  have l1: "map_of ?m1 ''method'' = Some (PStr ''fail'')" "map_of ?m1 ''params'' = Some (PList [])"
    "dict_get ?m1 ''id'' PNone = PNone"
    by (simp_all add: request_def dict_get_def)
  have l2: "map_of ?m2 ''method'' = Some (PStr ''add'')"
    "map_of ?m2 ''params'' = Some (PList [PInt 2, PInt 3])"
    "dict_get ?m2 ''id'' PNone = PInt 7"
    by (simp_all add: request_with_id_def dict_get_def)
  have u1: "unpack (PList []) = Inr []" and u2: "unpack (PList [PInt 2, PInt 3]) = Inr [PInt 2, PInt 3]"
    by simp_all
  have fails: "sample_registry [PStr ''fail''] 0 = (Raise boom, 1)"
    by (simp add: sample_registry_def sample_handler_def)
  have caught: "is_Exception boom" by (simp add: is_Exception_def boom_def)
  have strs: "ascii_exc boom" by (simp add: ascii_exc_def ascii_text_def boom_def)
  have probe: "probe_settles int64_codec boom"
    by (simp add: probe_settles_def settles_def int64_codec_def boom_def)
  have returns: "sample_registry [PStr ''add'', PInt 2, PInt 3] 1 = (Return (PInt 5), 2)"
    by (simp add: sample_registry_def sample_handler_def)
  have v: "encodes int64_codec [(''result'', PInt 5)]"
    by (simp add: encodes_def int64_codec_def int64_def)
  have cap: "capture_exception int64_codec boom =
      Inr (PDict [(''type'', PStr ''exceptions.ValueError''),
                  (''message'', PStr ''ValueError: boom''), (''args'', PList [PStr ''boom''])])"
    by (simp add: capture_exception_def int64_codec_def boom_def format_exception_only_def
        strip_def py_isspace_def Let_def)
  have dec: "decode int64_codec w = Inr d \<Longrightarrow> w = d" for w d
    by (simp add: int64_codec_def split: if_splits)
  from dispatch_failure_does_not_end_the_loop
         [where reg = sample_registry and r = "0::nat",
          OF int64_behaviour recv sends it it d1 l1(1) l1(2) u1 fails caught strs probe
             d2 l2(1) l2(2) u2 returns v]
  obtain error resp1 resp2 socket2
    where "capture_exception int64_codec boom = Inr error"
      and "decode int64_codec resp1 = Inr (assemble (dict_get ?m1 ''id'' PNone) PNone error)"
      and "decode int64_codec resp2 = Inr (assemble (dict_get ?m2 ''id'' PNone) (PInt 5) PNone)"
      and ac: "after_cycles 2 int64_codec sample_registry RepeatForever ?s 0 =
                 Some (RepeatForever, socket2, 2)"
      and "sent socket2 = sent ?s @ [resp1, resp2]"
      and rs: "recv_script socket2 = []"
    by blast
  with cap dec [of resp1] dec [of resp2] l1(3) l2(3)
  have "sent socket2 =
             [[(''result'', PNone),
               (''error'', PDict [(''type'', PStr ''exceptions.ValueError''),
                  (''message'', PStr ''ValueError: boom''), (''args'', PList [PStr ''boom''])])],
              [(''result'', PInt 5), (''error'', PNone), (''id'', PInt 7)]]"
    by (simp add: assemble_def scripted_socket_def Let_def)
  with ac rs int64_behaviour sends fails caught strs probe returns v show ?thesis by blast
qed

text \<open>
  C6 as stated fails for an exception of the registry that does not derive from
  \<^verbatim>\<open>Exception\<close>: a method that calls \<^verbatim>\<open>sys.exit()\<close> ends the loop without a response,
  and the well-formed request behind it is never received, whether the logger's scope
  lets the exception through or suppresses it.
\<close>

theorem system_exit_ends_the_loop_counterexample:
  "sample_registry [PStr ''quit''] 0 = (Raise system_exit, 1)
   \<and> run loopback_codec lets_through
        (sample_server [Message (request ''quit'' []),
                        Message (request_with_id (PInt 7) ''add'' [PInt 2, PInt 3])])
        None lets_through 0 =
       (Raises system_exit,
        Some \<lparr>attach_fault = None, endpoint = Some (False, ''tcp://127.0.0.1:7341''),
              recv_script = [Message (request_with_id (PInt 7) ''add'' [PInt 2, PInt 3])],
              send_script = [], sent = [], close_calls = 1\<rparr>,
        1)
   \<and> run loopback_codec suppresses
        (sample_server [Message (request ''quit'' []),
                        Message (request_with_id (PInt 7) ''add'' [PInt 2, PInt 3])])
        None lets_through 0 =
       (Returns,
        Some \<lparr>attach_fault = None, endpoint = Some (False, ''tcp://127.0.0.1:7341''),
              recv_script = [Message (request_with_id (PInt 7) ''add'' [PInt 2, PInt 3])],
              send_script = [], sent = [], close_calls = 1\<rparr>,
        1)"
  by (simp add: run_eval serve_loop.simps system_exit_def)

end
